theory Spec2Isabelle
  imports Main "HOL-Library.Word"
begin

unbundle bit_operations_syntax

section \<open>The central free lists of the runtime allocator (runtime/mcentral.go)\<close>

text \<open>
  A shallow embedding of \<^verbatim>\<open>mcentral.cacheSpan\<close>, \<^verbatim>\<open>mcentral.uncacheSpan\<close>,
  \<^verbatim>\<open>mcentral.freeSpan\<close> and \<^verbatim>\<open>mcentral.grow\<close>. One \<^verbatim>\<open>mcentral\<close> is modelled
  together with the part of the heap it touches: the spans (a store from span
  pointers to span structs), \<^verbatim>\<open>mheap_.sweepgen\<close> and \<^verbatim>\<open>memstats.heap_live\<close>.
  Machine integers are words of the width the Go type has (\<^verbatim>\<open>uintptr\<close>, \<^verbatim>\<open>int\<close>,
  \<^verbatim>\<open>uint64\<close>: 64 bits; \<^verbatim>\<open>uint32\<close>: 32; \<^verbatim>\<open>uint16\<close>: 16; \<^verbatim>\<open>uint8\<close>: 8), so every
  addition and subtraction wraps as it does in Go.
\<close>

subsection \<open>Data\<close>

type_synonym sid = nat \<comment> \<open>a span pointer \<^verbatim>\<open>*mspan\<close>\<close>

text \<open>The fields of \<^verbatim>\<open>mspan\<close> that mcentral.go reads or writes.\<close>

record mspan =
  startAddr :: "64 word" \<comment> \<open>\<^verbatim>\<open>s.base()\<close>\<close>
  limit :: "64 word"
  sweepgen :: "32 word"
  divMul :: "16 word"
  divShift :: "8 word"
  divShift2 :: "8 word"
  nelems :: "64 word"
  allocCount :: "16 word"
  freeindex :: "64 word"
  elemsize :: "64 word"
  needzero :: "8 word"
  allocCache :: "64 word"

text \<open>
  \<^verbatim>\<open>mcentral\<close>. The two \<^verbatim>\<open>mSpanList\<close>s are intrusive doubly linked lists in Go; here
  each is the sequence of its spans from \<^verbatim>\<open>first\<close> to \<^verbatim>\<open>last\<close>. A linked span cannot
  occur twice in a list nor in both lists, so the states that stand for a Go heap are
  those where the two sequences are distinct and disjoint.
\<close>

record mcentral =
  lock :: bool \<comment> \<open>the mutex: \<open>True\<close> while held\<close>
  spanclass :: "8 word"
  nonempty :: "sid list"
  empty :: "sid list"
  nmalloc :: "64 word"

datatype listid = NonemptyList | EmptyList

text \<open>
  What a run does to its surroundings, in order: taking and releasing the lock of the
  mcentral, the operations on its two lists, and the calls of the functions that
  mcentral.go does not define. The record is kept in the state (field \<open>events\<close>) so
  that the order of these effects can be stated.
\<close>

datatype event =
    EvLock
  | EvUnlock
  | EvRemove listid sid
  | EvInsert listid sid
  | EvInsertBack listid sid
  | EvDeductSweepCredit "64 word"
  | EvSweep sid bool
  | EvNextFreeIndex sid
  | EvHeapAlloc "64 word"
  | EvInitSpan sid
  | EvHeapFree sid

record mstate =
  central :: mcentral
  spans :: "sid \<Rightarrow> mspan"
  mheap_sweepgen :: "32 word" \<comment> \<open>\<^verbatim>\<open>mheap_.sweepgen\<close>\<close>
  heap_live :: "64 word" \<comment> \<open>\<^verbatim>\<open>memstats.heap_live\<close>\<close>
  events :: "event list"

subsection \<open>Fatal errors and results\<close>

text \<open>
  \<^verbatim>\<open>throw(msg)\<close> ends the process. A run that throws is \<open>Inl\<close> of the message and the
  state in which \<^verbatim>\<open>throw\<close> was called; a run that returns is \<open>Inr\<close> of the value and
  the state at the return.
\<close>

datatype fatal = Throw string

type_synonym 'a result = "(fatal \<times> mstate) + ('a \<times> mstate)"

definition throw :: "string \<Rightarrow> mstate \<Rightarrow> 'a result" where
  "throw msg st = Inl (Throw msg, st)"

definition ret :: "'a \<Rightarrow> mstate \<Rightarrow> 'a result" where
  "ret x st = Inr (x, st)"

definition seq :: "(mstate \<Rightarrow> 'a result) \<Rightarrow> ('a \<Rightarrow> mstate \<Rightarrow> 'b result) \<Rightarrow> mstate \<Rightarrow> 'b result" where
  "seq m f st = (case m st of Inl e \<Rightarrow> Inl e | Inr (x, st') \<Rightarrow> f x st')"

subsection \<open>What mcentral.go calls and does not define\<close>

text \<open>
  The constants, tables and functions of the runtime that mcentral.go uses and that
  are defined elsewhere are parameters of the model: nothing is assumed about them.
  A function that works on the heap takes the state and returns a result, so it may
  change the state in any way, or throw. \<^verbatim>\<open>refillAllocCache\<close> is the one exception,
  see below. Tracing (\<^verbatim>\<open>trace.enabled\<close>, \<^verbatim>\<open>traceGCSweepStart\<close>, \<^verbatim>\<open>traceGCSweepDone\<close>,
  \<^verbatim>\<open>traceHeapAlloc\<close>) and the pacer's \<^verbatim>\<open>gcController.revise\<close> write none of the
  fields modelled here and are left out.
\<close>

record env =
  PageSize :: "64 word" \<comment> \<open>\<^verbatim>\<open>_PageSize\<close>\<close>
  PageShift :: nat \<comment> \<open>\<^verbatim>\<open>_PageShift\<close>\<close>
  sizeclass :: "8 word \<Rightarrow> 8 word" \<comment> \<open>\<^verbatim>\<open>spanClass.sizeclass\<close>\<close>
  class_to_allocnpages :: "8 word \<Rightarrow> 8 word"
  class_to_size :: "8 word \<Rightarrow> 16 word"
  deductSweepCredit :: "64 word \<Rightarrow> 64 word \<Rightarrow> mstate \<Rightarrow> unit result"
  sweep :: "sid \<Rightarrow> bool \<Rightarrow> mstate \<Rightarrow> bool result" \<comment> \<open>\<^verbatim>\<open>mspan.sweep\<close>\<close>
  nextFreeIndex :: "sid \<Rightarrow> mstate \<Rightarrow> (64 word) result" \<comment> \<open>\<^verbatim>\<open>mspan.nextFreeIndex\<close>\<close>
  refillAllocCache :: "mspan \<Rightarrow> 64 word \<Rightarrow> 64 word"
  mheap_alloc :: "64 word \<Rightarrow> 8 word \<Rightarrow> bool \<Rightarrow> mstate \<Rightarrow> (sid option) result"
  initSpan :: "sid \<Rightarrow> mstate \<Rightarrow> unit result" \<comment> \<open>\<^verbatim>\<open>heapBitsForAddr(s.base()).initSpan(s)\<close>\<close>
  mheap_freeSpan :: "sid \<Rightarrow> mstate \<Rightarrow> unit result"

text \<open>
  A call of one of these functions: the function runs on the state, and the call is
  recorded after the events of the caller, whatever the function did to the record.
\<close>

definition ext :: "event \<Rightarrow> (mstate \<Rightarrow> 'a result) \<Rightarrow> mstate \<Rightarrow> 'a result" where
  "ext ev f st =
     (case f st of
        Inl (e, st') \<Rightarrow> Inl (e, st'\<lparr>events := events st @ [ev]\<rparr>)
      | Inr (x, st') \<Rightarrow> Inr (x, st'\<lparr>events := events st @ [ev]\<rparr>))"

text \<open>
  Modelled from the spec: \<^verbatim>\<open>mspan.refillAllocCache\<close> is not in mcentral.go. The spec
  has it "refresh the free-slot scan cache", the cached machine word over the
  allocation bitmap: it writes \<^verbatim>\<open>allocCache\<close> and nothing else. The bitmap is not
  modelled, so the new word is a parameter of the span and the byte offset.
\<close>

definition call_refillAllocCache :: "env \<Rightarrow> sid \<Rightarrow> 64 word \<Rightarrow> mstate \<Rightarrow> mstate" where
  "call_refillAllocCache env s whichByte st =
     st\<lparr>spans := (spans st)(s := (spans st s)\<lparr>allocCache := refillAllocCache env (spans st s) whichByte\<rparr>)\<rparr>"

subsection \<open>The lock, the atomics and the span lists\<close>

definition lock_c :: "mstate \<Rightarrow> mstate" where
  "lock_c st = st\<lparr>central := (central st)\<lparr>lock := True\<rparr>, events := events st @ [EvLock]\<rparr>"

definition unlock_c :: "mstate \<Rightarrow> mstate" where
  "unlock_c st = st\<lparr>central := (central st)\<lparr>lock := False\<rparr>, events := events st @ [EvUnlock]\<rparr>"

definition atomic_Store_sweepgen :: "sid \<Rightarrow> 32 word \<Rightarrow> mstate \<Rightarrow> mstate" where
  "atomic_Store_sweepgen s v st = st\<lparr>spans := (spans st)(s := (spans st s)\<lparr>sweepgen := v\<rparr>)\<rparr>"

text \<open>\<^verbatim>\<open>atomic.Cas(&s.sweepgen, old, new)\<close>: whether the swap was done, and the state.\<close>

definition atomic_Cas_sweepgen :: "sid \<Rightarrow> 32 word \<Rightarrow> 32 word \<Rightarrow> mstate \<Rightarrow> bool \<times> mstate" where
  "atomic_Cas_sweepgen s old new st =
     (if sweepgen (spans st s) = old then (True, atomic_Store_sweepgen s new st) else (False, st))"

text \<open>\<^verbatim>\<open>atomic.Xadd64\<close> on the two counters; the signed delta is added modulo \<open>2^64\<close>.\<close>

definition Xadd64_nmalloc :: "64 word \<Rightarrow> mstate \<Rightarrow> mstate" where
  "Xadd64_nmalloc d st = st\<lparr>central := (central st)\<lparr>nmalloc := nmalloc (central st) + d\<rparr>\<rparr>"

definition Xadd64_heap_live :: "64 word \<Rightarrow> mstate \<Rightarrow> mstate" where
  "Xadd64_heap_live d st = st\<lparr>heap_live := heap_live st + d\<rparr>"

definition get_list :: "listid \<Rightarrow> mstate \<Rightarrow> sid list" where
  "get_list l st = (case l of NonemptyList \<Rightarrow> nonempty (central st) | EmptyList \<Rightarrow> empty (central st))"

definition set_list :: "listid \<Rightarrow> sid list \<Rightarrow> mstate \<Rightarrow> mstate" where
  "set_list l xs st =
     (case l of
        NonemptyList \<Rightarrow> st\<lparr>central := (central st)\<lparr>nonempty := xs\<rparr>\<rparr>
      | EmptyList \<Rightarrow> st\<lparr>central := (central st)\<lparr>empty := xs\<rparr>\<rparr>)"

text \<open>\<^verbatim>\<open>s.inList()\<close>: the span is linked into a list.\<close>

definition inList :: "sid \<Rightarrow> mstate \<Rightarrow> bool" where
  "inList s st \<longleftrightarrow> s \<in> set (nonempty (central st)) \<or> s \<in> set (empty (central st))"

text \<open>
  Modelled from the spec: \<^verbatim>\<open>mSpanList\<close> (\<^verbatim>\<open>remove\<close>, \<^verbatim>\<open>insert\<close>, \<^verbatim>\<open>insertBack\<close>) is not in
  mcentral.go. The spec has the span list "a doubly-linked ordered collection
  supporting O(1) insert-at-back, remove-by-reference, and forward iteration from the
  front", and a span in at most one list at any instant. \<^verbatim>\<open>insertBack\<close> is the
  insert-at-back; \<^verbatim>\<open>insert\<close>, of which the spec says no more than that it puts the
  span into the list, links the span at the front. Removing a span from a list that
  does not hold it, and inserting a span that is linked already, break the invariant
  and are fatal, as the spec has every invariant violation. The theorems below that
  depend on a list operation assume the span linked where the operation needs it.
\<close>

definition list_remove :: "listid \<Rightarrow> sid \<Rightarrow> mstate \<Rightarrow> unit result" where
  "list_remove l s st =
     (if s \<notin> set (get_list l st) then throw ''mSpanList.remove'' st
      else ret () ((set_list l (removeAll s (get_list l st)) st)\<lparr>events := events st @ [EvRemove l s]\<rparr>))"

definition list_insert :: "listid \<Rightarrow> sid \<Rightarrow> mstate \<Rightarrow> unit result" where
  "list_insert l s st =
     (if inList s st then throw ''mSpanList.insert'' st
      else ret () ((set_list l (s # get_list l st) st)\<lparr>events := events st @ [EvInsert l s]\<rparr>))"

definition list_insertBack :: "listid \<Rightarrow> sid \<Rightarrow> mstate \<Rightarrow> unit result" where
  "list_insertBack l s st =
     (if inList s st then throw ''mSpanList.insertBack'' st
      else ret () ((set_list l (get_list l st @ [s]) st)\<lparr>events := events st @ [EvInsertBack l s]\<rparr>))"

subsection \<open>grow\<close>

text \<open>
  \<^verbatim>\<open>grow\<close> asks the heap for a span of the size class and sets its limit. In Go the
  operators \<^verbatim>\<open><<\<close>, \<^verbatim>\<open>>>\<close> and \<^verbatim>\<open>*\<close> have one precedence and associate to the left.
\<close>

definition grow :: "env \<Rightarrow> mstate \<Rightarrow> (sid option) result" where
  "grow env st =
     (let npages = (ucast (class_to_allocnpages env (sizeclass env (spanclass (central st)))) :: 64 word);
          size = (ucast (class_to_size env (sizeclass env (spanclass (central st)))) :: 64 word)
      in seq (ext (EvHeapAlloc npages) (mheap_alloc env npages (spanclass (central st)) True))
           (\<lambda>r st1.
              case r of
                None \<Rightarrow> ret None st1
              | Some s \<Rightarrow>
                  (let sp = spans st1 s;
                       n = drop_bit (unat (divShift2 sp))
                             (drop_bit (unat (divShift sp)) (push_bit (PageShift env) npages)
                                * ucast (divMul sp));
                       st2 = st1\<lparr>spans := (spans st1)(s := sp\<lparr>limit := startAddr sp + size * n\<rparr>)\<rparr>
                   in seq (ext (EvInitSpan s) (initSpan env s)) (\<lambda>_. ret (Some s)) st2))
           st)"

subsection \<open>cacheSpan\<close>

text \<open>The code from the label \<^verbatim>\<open>havespan\<close> to the return.\<close>

definition havespan :: "env \<Rightarrow> 64 word \<Rightarrow> sid \<Rightarrow> mstate \<Rightarrow> (sid option) result" where
  "havespan env spanBytes s st =
     (let sp = spans st s;
          n = nelems sp - ucast (allocCount sp)
      in if n = 0 \<or> freeindex sp = nelems sp \<or> ucast (allocCount sp) = nelems sp
         then throw ''span has no free objects'' st
         else
           (let st1 = Xadd64_nmalloc n st;
                usedBytes = ucast (allocCount sp) * elemsize sp;
                st2 = Xadd64_heap_live (spanBytes - usedBytes) st1;
                freeByteBase = freeindex sp AND NOT 63;
                whichByte = freeByteBase div 8;
                st3 = call_refillAllocCache env s whichByte st2;
                sp3 = spans st3 s;
                st4 = st3\<lparr>spans := (spans st3)
                         (s := sp3\<lparr>allocCache := drop_bit (unat (freeindex sp3 mod 64)) (allocCache sp3)\<rparr>)\<rparr>
            in ret (Some s) st4))"

text \<open>
  The loop over the nonempty list, entered with the lock held. The list is not
  changed before the loop is left, so the loop runs over the spans that are in the
  list when it starts. \<open>None\<close>: the loop ended without a span.
\<close>

fun scan_nonempty :: "env \<Rightarrow> 32 word \<Rightarrow> sid list \<Rightarrow> mstate \<Rightarrow> (sid option) result" where
  "scan_nonempty env sg [] st = ret None st"
| "scan_nonempty env sg (s # rest) st =
     (case (if sweepgen (spans st s) = sg - 2 then atomic_Cas_sweepgen s (sg - 2) (sg - 1) st
            else (False, st)) of
        (True, st1) \<Rightarrow>
          seq (list_remove NonemptyList s)
            (\<lambda>_. seq (list_insertBack EmptyList s)
               (\<lambda>_ st2. seq (ext (EvSweep s True) (sweep env s True)) (\<lambda>_. ret (Some s)) (unlock_c st2)))
            st1
      | (False, st1) \<Rightarrow>
          if sweepgen (spans st1 s) = sg - 1 then scan_nonempty env sg rest st1
          else
            seq (list_remove NonemptyList s)
              (\<lambda>_. seq (list_insertBack EmptyList s) (\<lambda>_ st2. ret (Some s) (unlock_c st2)))
              st1)"

text \<open>
  The loop over the empty list. It is left with a span (\<^verbatim>\<open>goto havespan\<close>), to scan
  again (\<^verbatim>\<open>goto retry\<close>, the lock held), or without a span (the end of the list, or
  \<^verbatim>\<open>break\<close>).
\<close>

datatype scan = Havespan sid | Retry | NoSpan

fun scan_empty :: "env \<Rightarrow> 32 word \<Rightarrow> sid list \<Rightarrow> mstate \<Rightarrow> scan result" where
  "scan_empty env sg [] st = ret NoSpan st"
| "scan_empty env sg (s # rest) st =
     (case (if sweepgen (spans st s) = sg - 2 then atomic_Cas_sweepgen s (sg - 2) (sg - 1) st
            else (False, st)) of
        (True, st1) \<Rightarrow>
          seq (list_remove EmptyList s)
            (\<lambda>_. seq (list_insertBack EmptyList s)
               (\<lambda>_ st2. seq (ext (EvSweep s True) (sweep env s True))
                  (\<lambda>_. seq (ext (EvNextFreeIndex s) (nextFreeIndex env s))
                     (\<lambda>freeIndex st3.
                        if freeIndex \<noteq> nelems (spans st3 s)
                        then ret (Havespan s)
                               (st3\<lparr>spans := (spans st3)(s := (spans st3 s)\<lparr>freeindex := freeIndex\<rparr>)\<rparr>)
                        else ret Retry (lock_c st3)))
                  (unlock_c st2)))
            st1
      | (False, st1) \<Rightarrow>
          if sweepgen (spans st1 s) = sg - 1 then scan_empty env sg rest st1
          else ret NoSpan st1)"

text \<open>
  The code from the label \<^verbatim>\<open>retry\<close> to the label \<^verbatim>\<open>havespan\<close>: the two loops, and
  \<^verbatim>\<open>grow\<close> when they find nothing. With a sweep that is a parameter, nothing bounds
  the number of times the code jumps back to \<^verbatim>\<open>retry\<close>; the first argument bounds it,
  and \<open>None\<close> is a run that would jump once more. \<open>Some\<close> of a result with no span is
  the \<^verbatim>\<open>return nil\<close> after a failed \<^verbatim>\<open>grow\<close>.
\<close>

fun cacheSpan_retry :: "nat \<Rightarrow> env \<Rightarrow> 32 word \<Rightarrow> mstate \<Rightarrow> (sid option) result option" where
  "cacheSpan_retry 0 env sg st = None"
| "cacheSpan_retry (Suc fuel) env sg st =
     (case scan_nonempty env sg (nonempty (central st)) st of
        Inl e \<Rightarrow> Some (Inl e)
      | Inr (Some s, st1) \<Rightarrow> Some (Inr (Some s, st1))
      | Inr (None, st1) \<Rightarrow>
          (case scan_empty env sg (empty (central st1)) st1 of
             Inl e \<Rightarrow> Some (Inl e)
           | Inr (Havespan s, st2) \<Rightarrow> Some (Inr (Some s, st2))
           | Inr (Retry, st2) \<Rightarrow> cacheSpan_retry fuel env sg st2
           | Inr (NoSpan, st2) \<Rightarrow>
               Some (seq (grow env)
                      (\<lambda>r st3.
                         case r of
                           None \<Rightarrow> ret None st3
                         | Some s \<Rightarrow>
                             seq (list_insertBack EmptyList s) (\<lambda>_ st4. ret (Some s) (unlock_c st4))
                               (lock_c st3))
                      (unlock_c st2))))"

definition spanBytes_of :: "env \<Rightarrow> mstate \<Rightarrow> 64 word" where
  "spanBytes_of env st =
     ucast (class_to_allocnpages env (sizeclass env (spanclass (central st)))) * PageSize env"

text \<open>
  \<^verbatim>\<open>cacheSpan\<close> up to the label \<^verbatim>\<open>havespan\<close>: the sweep credit, the lock, the global
  sweep generation read once, and the search.
\<close>

definition cacheSpan_find :: "nat \<Rightarrow> env \<Rightarrow> mstate \<Rightarrow> (sid option) result option" where
  "cacheSpan_find fuel env st =
     (case ext (EvDeductSweepCredit (spanBytes_of env st)) (deductSweepCredit env (spanBytes_of env st) 0) st of
        Inl e \<Rightarrow> Some (Inl e)
      | Inr (_, st0) \<Rightarrow> cacheSpan_retry fuel env (mheap_sweepgen (lock_c st0)) (lock_c st0))"

definition cacheSpan :: "nat \<Rightarrow> env \<Rightarrow> mstate \<Rightarrow> (sid option) result option" where
  "cacheSpan fuel env st =
     (case cacheSpan_find fuel env st of
        None \<Rightarrow> None
      | Some (Inl e) \<Rightarrow> Some (Inl e)
      | Some (Inr (None, st1)) \<Rightarrow> Some (Inr (None, st1))
      | Some (Inr (Some s, st1)) \<Rightarrow> Some (havespan env (spanBytes_of env st) s st1))"

subsection \<open>uncacheSpan\<close>

definition uncacheSpan :: "env \<Rightarrow> sid \<Rightarrow> mstate \<Rightarrow> unit result" where
  "uncacheSpan env s st =
     (if allocCount (spans st s) = 0 then throw ''uncaching span but s.allocCount == 0'' st
      else
        (let sg = mheap_sweepgen st;
             stale = (sweepgen (spans st s) = sg + 1);
             st1 = (if stale then atomic_Store_sweepgen s (sg - 1) st
                    else atomic_Store_sweepgen s sg st);
             n = nelems (spans st1 s) - ucast (allocCount (spans st1 s));
             sweep_if_stale =
               (\<lambda>st3. if stale then seq (ext (EvSweep s False) (sweep env s False)) (\<lambda>_. ret ()) st3
                      else ret () st3)
         in if 0 <s n
            then seq (list_remove EmptyList s)
                   (\<lambda>_. seq (list_insert NonemptyList s)
                      (\<lambda>_ st2.
                         sweep_if_stale
                           (unlock_c
                              (if \<not> stale
                               then Xadd64_heap_live (- n * elemsize (spans st2 s)) st2
                               else st2))))
                   (lock_c (Xadd64_nmalloc (- n) st1))
            else sweep_if_stale st1))"

subsection \<open>freeSpan\<close>

definition freeSpan :: "env \<Rightarrow> sid \<Rightarrow> bool \<Rightarrow> bool \<Rightarrow> mstate \<Rightarrow> bool result" where
  "freeSpan env s preserve wasempty st =
     (if sweepgen (spans st s) = mheap_sweepgen st + 1 \<or> sweepgen (spans st s) = mheap_sweepgen st + 3
      then throw ''freeSpan given cached span'' st
      else
        (let st1 = st\<lparr>spans := (spans st)(s := (spans st s)\<lparr>needzero := 1\<rparr>)\<rparr>
         in if preserve
            then (if \<not> inList s st1 then throw ''can't preserve unlinked span'' st1
                  else ret False (atomic_Store_sweepgen s (mheap_sweepgen st1) st1))
            else
              seq (if wasempty
                   then seq (list_remove EmptyList s) (\<lambda>_. list_insert NonemptyList s)
                   else ret ())
                (\<lambda>_ st2.
                   (let st3 = atomic_Store_sweepgen s (mheap_sweepgen st2) st2
                    in if allocCount (spans st3 s) \<noteq> 0 then ret False (unlock_c st3)
                       else seq (list_remove NonemptyList s)
                              (\<lambda>_ st4. seq (ext (EvHeapFree s) (mheap_freeSpan env s)) (\<lambda>_. ret True)
                                          (unlock_c st4))
                              st3))
                (lock_c st1)))"

subsection \<open>Observing a result\<close>

text \<open>The state in which a run ended, whether it returned or threw.\<close>

definition final_state :: "'a result \<Rightarrow> mstate" where
  "final_state r = (case r of Inl (e, st) \<Rightarrow> st | Inr (x, st) \<Rightarrow> st)"

text \<open>The value a run returned, if it returned.\<close>

definition returned :: "'a result \<Rightarrow> 'a option" where
  "returned r = (case r of Inl e \<Rightarrow> None | Inr (x, st) \<Rightarrow> Some x)"

subsection \<open>A small heap for the examples\<close>

text \<open>
  The size class of 48-byte objects: spans of one page of 8192 bytes holding 170
  objects, 32 bytes of the page left over. The functions that mcentral.go does not
  define are simple ones: no sweep credit is owed; a sweep finds the first object of
  the span alive and no other, and stamps the span as swept; objects are allocated
  from the front of a span, so the next free index is the number of allocated
  objects; and the heap hands out span 7.
\<close>

definition ex_span :: mspan where
  "ex_span =
     \<lparr>startAddr = 0x1000000, limit = 0x1001FE0, sweepgen = 4, divMul = 683, divShift = 4,
      divShift2 = 11, nelems = 170, allocCount = 1, freeindex = 1, elemsize = 48, needzero = 0,
      allocCache = 0\<rparr>"

definition ex_sweep :: "sid \<Rightarrow> bool \<Rightarrow> mstate \<Rightarrow> bool result" where
  "ex_sweep s preserve st =
     ret False
       (st\<lparr>spans := (spans st)
             (s := (spans st s)
                \<lparr>sweepgen := mheap_sweepgen st,
                 allocCount := (if allocCount (spans st s) = 0 then 0 else 1),
                 freeindex := 0\<rparr>)\<rparr>)"

definition ex_alloc :: "64 word \<Rightarrow> 8 word \<Rightarrow> bool \<Rightarrow> mstate \<Rightarrow> (sid option) result" where
  "ex_alloc npages spc zeroed st =
     ret (Some 7)
       (st\<lparr>spans := (spans st)
             (7 := ex_span\<lparr>sweepgen := mheap_sweepgen st, allocCount := 0, freeindex := 0, limit := 0\<rparr>)\<rparr>)"

definition ex_nextFreeIndex :: "sid \<Rightarrow> mstate \<Rightarrow> (64 word) result" where
  "ex_nextFreeIndex s st =
     ret (if ucast (allocCount (spans st s)) = nelems (spans st s) then nelems (spans st s)
          else ucast (allocCount (spans st s)))
       st"

definition ex_refill :: "mspan \<Rightarrow> 64 word \<Rightarrow> 64 word" where
  "ex_refill sp whichByte = - 1"

definition ex_env :: env where
  "ex_env =
     \<lparr>PageSize = 8192, PageShift = 13, sizeclass = drop_bit 1,
      class_to_allocnpages = (\<lambda>_. 1), class_to_size = (\<lambda>_. 48),
      deductSweepCredit = (\<lambda>_ _. ret ()), sweep = ex_sweep, nextFreeIndex = ex_nextFreeIndex,
      refillAllocCache = ex_refill, mheap_alloc = ex_alloc, initSpan = (\<lambda>_. ret ()),
      mheap_freeSpan = (\<lambda>_. ret ())\<rparr>"

text \<open>
  The global sweep generation is 4. Every span is \<open>ex_span\<close>: swept, one object of 170
  allocated. The lists are empty; the examples fill them.
\<close>

definition ex_central :: mcentral where
  "ex_central = \<lparr>lock = False, spanclass = 8, nonempty = [], empty = [], nmalloc = 0\<rparr>"

definition ex_state :: mstate where
  "ex_state =
     \<lparr>central = ex_central, spans = (\<lambda>_. ex_span), mheap_sweepgen = 4, heap_live = 0, events = []\<rparr>"

text \<open>
  Span 3 in the empty list, claimed by the background sweeper (its generation is the
  global one minus 1) and swept down to no allocated object.
\<close>

definition ex_swept :: mstate where
  "ex_swept =
     ex_state\<lparr>central := ex_central\<lparr>empty := [3]\<rparr>,
              spans := (\<lambda>_. ex_span\<lparr>sweepgen := 3, allocCount := 0, freeindex := 0\<rparr>)\<rparr>"

text \<open>
  Span 3 leased to an mcache and linked in the empty list, as \<^verbatim>\<open>cacheSpan\<close> leaves
  it. \<open>ex_leased_full\<close>: leased in the current cycle (the mcache has set the
  generation to the global one plus 3), all 170 objects allocated. \<open>ex_leased\<close>: the
  same with 168 objects allocated. \<open>ex_stale\<close>: 168 objects allocated, leased before
  the current sweep cycle began (the global generation plus 1).
\<close>

definition ex_leased_full :: mstate where
  "ex_leased_full =
     ex_state\<lparr>central := ex_central\<lparr>empty := [3]\<rparr>,
              spans := (\<lambda>_. ex_span\<lparr>sweepgen := 7, allocCount := 170, freeindex := 170\<rparr>),
              heap_live := 8192\<rparr>"

definition ex_leased :: mstate where
  "ex_leased =
     ex_state\<lparr>central := ex_central\<lparr>empty := [3]\<rparr>,
              spans := (\<lambda>_. ex_span\<lparr>sweepgen := 7, allocCount := 168, freeindex := 168\<rparr>),
              heap_live := 8192\<rparr>"

definition ex_stale :: mstate where
  "ex_stale =
     ex_state\<lparr>central := ex_central\<lparr>empty := [3]\<rparr>,
              spans := (\<lambda>_. ex_span\<lparr>sweepgen := 5, allocCount := 168, freeindex := 168\<rparr>),
              heap_live := 8192\<rparr>"

text \<open>
  Span 3 in the nonempty list, swept, one object of 170 allocated (\<open>ex_listed\<close>);
  span 3 in the nonempty list although all its objects are allocated
  (\<open>ex_listed_full\<close>); span 3 in the empty list, all objects allocated, not swept in
  this cycle (\<open>ex_unswept\<close>).
\<close>

definition ex_listed :: mstate where
  "ex_listed = ex_state\<lparr>central := ex_central\<lparr>nonempty := [3]\<rparr>\<rparr>"

definition ex_listed_full :: mstate where
  "ex_listed_full =
     ex_state\<lparr>central := ex_central\<lparr>nonempty := [3]\<rparr>,
              spans := (\<lambda>_. ex_span\<lparr>allocCount := 170, freeindex := 170\<rparr>)\<rparr>"

definition ex_unswept :: mstate where
  "ex_unswept =
     ex_state\<lparr>central := ex_central\<lparr>empty := [3]\<rparr>,
              spans := (\<lambda>_. ex_span\<lparr>sweepgen := 2, allocCount := 170, freeindex := 170\<rparr>)\<rparr>"

text \<open>
  \<open>ex_swept_listed\<close>: as \<open>ex_swept\<close>, the span in the nonempty list.
  \<open>ex_listed_behind\<close>: as \<open>ex_listed\<close>, with span 5, which another thread is
  sweeping, before span 3 in the nonempty list.
\<close>

definition ex_swept_listed :: mstate where
  "ex_swept_listed =
     ex_state\<lparr>central := ex_central\<lparr>nonempty := [3]\<rparr>,
              spans := (\<lambda>_. ex_span\<lparr>sweepgen := 3, allocCount := 0, freeindex := 0\<rparr>)\<rparr>"

definition ex_listed_behind :: mstate where
  "ex_listed_behind =
     ex_state\<lparr>central := ex_central\<lparr>nonempty := [5, 3]\<rparr>,
              spans := (\<lambda>_. ex_span)(5 := ex_span\<lparr>sweepgen := 3\<rparr>)\<rparr>"

section \<open>Properties\<close>

lemmas prim_defs = throw_def ret_def seq_def ext_def lock_c_def unlock_c_def
  atomic_Store_sweepgen_def atomic_Cas_sweepgen_def Xadd64_nmalloc_def Xadd64_heap_live_def
  get_list_def set_list_def inList_def list_remove_def list_insert_def list_insertBack_def

lemmas ex_defs = ex_span_def ex_sweep_def ex_alloc_def ex_nextFreeIndex_def ex_refill_def
  ex_env_def ex_central_def ex_state_def ex_swept_def ex_leased_full_def ex_leased_def
  ex_stale_def ex_listed_def ex_listed_full_def ex_unswept_def ex_swept_listed_def
  ex_listed_behind_def

subsection \<open>The fields after a step\<close>

lemma lock_c_fields:
  "spans (lock_c st) = spans st" "mheap_sweepgen (lock_c st) = mheap_sweepgen st"
  "heap_live (lock_c st) = heap_live st" "events (lock_c st) = events st @ [EvLock]"
  "nonempty (central (lock_c st)) = nonempty (central st)"
  "empty (central (lock_c st)) = empty (central st)"
  "nmalloc (central (lock_c st)) = nmalloc (central st)"
  "spanclass (central (lock_c st)) = spanclass (central st)"
  "lock (central (lock_c st)) = True"
  by (simp_all add: lock_c_def)

lemma unlock_c_fields:
  "spans (unlock_c st) = spans st" "mheap_sweepgen (unlock_c st) = mheap_sweepgen st"
  "heap_live (unlock_c st) = heap_live st" "events (unlock_c st) = events st @ [EvUnlock]"
  "nonempty (central (unlock_c st)) = nonempty (central st)"
  "empty (central (unlock_c st)) = empty (central st)"
  "nmalloc (central (unlock_c st)) = nmalloc (central st)"
  "spanclass (central (unlock_c st)) = spanclass (central st)"
  "lock (central (unlock_c st)) = False"
  by (simp_all add: unlock_c_def)

lemma atomic_Store_sweepgen_fields:
  "spans (atomic_Store_sweepgen s v st) = (spans st)(s := (spans st s)\<lparr>sweepgen := v\<rparr>)"
  "mheap_sweepgen (atomic_Store_sweepgen s v st) = mheap_sweepgen st"
  "heap_live (atomic_Store_sweepgen s v st) = heap_live st"
  "events (atomic_Store_sweepgen s v st) = events st"
  "central (atomic_Store_sweepgen s v st) = central st"
  by (simp_all add: atomic_Store_sweepgen_def)

lemma Xadd64_nmalloc_fields:
  "spans (Xadd64_nmalloc d st) = spans st" "mheap_sweepgen (Xadd64_nmalloc d st) = mheap_sweepgen st"
  "heap_live (Xadd64_nmalloc d st) = heap_live st" "events (Xadd64_nmalloc d st) = events st"
  "nonempty (central (Xadd64_nmalloc d st)) = nonempty (central st)"
  "empty (central (Xadd64_nmalloc d st)) = empty (central st)"
  "nmalloc (central (Xadd64_nmalloc d st)) = nmalloc (central st) + d"
  "spanclass (central (Xadd64_nmalloc d st)) = spanclass (central st)"
  "lock (central (Xadd64_nmalloc d st)) = lock (central st)"
  by (simp_all add: Xadd64_nmalloc_def)

lemma Xadd64_heap_live_fields:
  "spans (Xadd64_heap_live d st) = spans st" "mheap_sweepgen (Xadd64_heap_live d st) = mheap_sweepgen st"
  "heap_live (Xadd64_heap_live d st) = heap_live st + d" "events (Xadd64_heap_live d st) = events st"
  "central (Xadd64_heap_live d st) = central st"
  by (simp_all add: Xadd64_heap_live_def)

lemma set_list_fields:
  "spans (set_list l xs st) = spans st" "mheap_sweepgen (set_list l xs st) = mheap_sweepgen st"
  "heap_live (set_list l xs st) = heap_live st" "events (set_list l xs st) = events st"
  "nonempty (central (set_list l xs st)) = (if l = NonemptyList then xs else nonempty (central st))"
  "empty (central (set_list l xs st)) = (if l = EmptyList then xs else empty (central st))"
  "nmalloc (central (set_list l xs st)) = nmalloc (central st)"
  "spanclass (central (set_list l xs st)) = spanclass (central st)"
  "lock (central (set_list l xs st)) = lock (central st)"
  by (cases l; simp add: set_list_def)+

lemma get_list_simps:
  "get_list NonemptyList st = nonempty (central st)" "get_list EmptyList st = empty (central st)"
  by (simp_all add: get_list_def)

lemmas state_fields = lock_c_fields unlock_c_fields atomic_Store_sweepgen_fields
  Xadd64_nmalloc_fields Xadd64_heap_live_fields set_list_fields get_list_simps

subsection \<open>Sequencing\<close>

lemma seq_ret: "seq (ret x) f st = f x st"
  by (simp add: seq_def ret_def)

lemma seq_throw: "seq (throw msg) f st = throw msg st"
  by (simp add: seq_def throw_def)

lemma seq_seq: "seq (seq m f) g st = seq m (\<lambda>x. seq (f x) g) st"
  by (simp add: seq_def split: sum.splits prod.splits)

lemma seq_if: "seq (if c then a else b) f st = (if c then seq a f st else seq b f st)"
  by simp

lemma seq_list_remove:
  "seq (list_remove l s) f st =
     (if s \<notin> set (get_list l st) then throw ''mSpanList.remove'' st
      else f () ((set_list l (removeAll s (get_list l st)) st)\<lparr>events := events st @ [EvRemove l s]\<rparr>))"
  by (simp add: seq_def list_remove_def throw_def ret_def)

lemma seq_list_insert:
  "seq (list_insert l s) f st =
     (if inList s st then throw ''mSpanList.insert'' st
      else f () ((set_list l (s # get_list l st) st)\<lparr>events := events st @ [EvInsert l s]\<rparr>))"
  by (simp add: seq_def list_insert_def throw_def ret_def)

lemma seq_list_insertBack:
  "seq (list_insertBack l s) f st =
     (if inList s st then throw ''mSpanList.insertBack'' st
      else f () ((set_list l (get_list l st @ [s]) st)\<lparr>events := events st @ [EvInsertBack l s]\<rparr>))"
  by (simp add: seq_def list_insertBack_def throw_def ret_def)

lemmas seq_simps = seq_ret seq_throw seq_seq seq_if seq_list_remove seq_list_insert
  seq_list_insertBack

subsection \<open>Fatal errors\<close>

text \<open>
  C6. \<^verbatim>\<open>uncacheSpan\<close> on a span whose \<^verbatim>\<open>allocCount\<close> is zero throws: the run ends with
  the message "uncaching span but s.allocCount == 0" in the very state it started in,
  so no list was changed and no counter adjusted.
\<close>

theorem uncacheSpan_zero_fatal:
  "allocCount (spans st s) = 0 \<Longrightarrow>
   uncacheSpan env s st = Inl (Throw ''uncaching span but s.allocCount == 0'', st)"
  by (simp add: uncacheSpan_def throw_def)

theorem uncacheSpan_zero_fatal_witness:
  "allocCount (spans (ex_state\<lparr>spans := (\<lambda>_. ex_span\<lparr>allocCount := 0\<rparr>)\<rparr>) 3) = 0 \<and>
   uncacheSpan ex_env 3 (ex_state\<lparr>spans := (\<lambda>_. ex_span\<lparr>allocCount := 0\<rparr>)\<rparr>) =
     Inl (Throw ''uncaching span but s.allocCount == 0'',
          ex_state\<lparr>spans := (\<lambda>_. ex_span\<lparr>allocCount := 0\<rparr>)\<rparr>)"
  using uncacheSpan_zero_fatal [of "ex_state\<lparr>spans := (\<lambda>_. ex_span\<lparr>allocCount := 0\<rparr>)\<rparr>" 3 ex_env]
  by simp

text \<open>
  C7. \<^verbatim>\<open>freeSpan\<close> on a span that is cached in an mcache (its sweep generation is the
  global one plus 1 or plus 3) throws "freeSpan given cached span" in the state it
  started in: nothing of the mcentral or the span was changed.
\<close>

theorem freeSpan_cached_fatal:
  "sweepgen (spans st s) = mheap_sweepgen st + 1 \<or> sweepgen (spans st s) = mheap_sweepgen st + 3 \<Longrightarrow>
   freeSpan env s preserve wasempty st = Inl (Throw ''freeSpan given cached span'', st)"
  by (simp add: freeSpan_def throw_def)

theorem freeSpan_cached_fatal_witness:
  "sweepgen (spans (ex_state\<lparr>spans := (\<lambda>_. ex_span\<lparr>sweepgen := 7\<rparr>)\<rparr>) 3) =
     mheap_sweepgen (ex_state\<lparr>spans := (\<lambda>_. ex_span\<lparr>sweepgen := 7\<rparr>)\<rparr>) + 3 \<and>
   freeSpan ex_env 3 False True (ex_state\<lparr>spans := (\<lambda>_. ex_span\<lparr>sweepgen := 7\<rparr>)\<rparr>) =
     Inl (Throw ''freeSpan given cached span'', ex_state\<lparr>spans := (\<lambda>_. ex_span\<lparr>sweepgen := 7\<rparr>)\<rparr>)"
proof -
  have gen: "sweepgen (spans (ex_state\<lparr>spans := (\<lambda>_. ex_span\<lparr>sweepgen := 7\<rparr>)\<rparr>) 3) =
     mheap_sweepgen (ex_state\<lparr>spans := (\<lambda>_. ex_span\<lparr>sweepgen := 7\<rparr>)\<rparr>) + 3"
    by (simp add: ex_state_def)
  from gen freeSpan_cached_fatal [of "ex_state\<lparr>spans := (\<lambda>_. ex_span\<lparr>sweepgen := 7\<rparr>)\<rparr>" 3 ex_env False True]
  show ?thesis by simp
qed

subsection \<open>freeSpan\<close>

lemma freeSpan_value:
  "freeSpan env s preserve wasempty st = Inr (r, st') \<Longrightarrow>
   r = (\<not> preserve \<and> allocCount (spans st s) = 0)"
  unfolding freeSpan_def prim_defs
  by (auto simp: Let_def split: if_splits sum.splits prod.splits)

lemma freeSpan_events:
  "freeSpan env s preserve wasempty st = Inr (r, st') \<Longrightarrow>
   events st' = events st @
     (if preserve then []
      else [EvLock] @ (if wasempty then [EvRemove EmptyList s, EvInsert NonemptyList s] else []) @
           (if allocCount (spans st s) = 0 then [EvRemove NonemptyList s, EvUnlock, EvHeapFree s]
            else [EvUnlock]))"
  unfolding freeSpan_def prim_defs
  by (auto simp: Let_def split: if_splits sum.splits prod.splits)

lemma freeSpan_preserve:
  assumes "sweepgen (spans st s) \<noteq> mheap_sweepgen st + 1"
    and "sweepgen (spans st s) \<noteq> mheap_sweepgen st + 3"
    and "inList s st"
  shows "freeSpan env s True wasempty st =
     Inr (False, st\<lparr>spans := (spans st)(s := (spans st s)\<lparr>needzero := 1, sweepgen := mheap_sweepgen st\<rparr>)\<rparr>)"
  using assms unfolding freeSpan_def prim_defs
  by (auto simp: Let_def)

lemma freeSpan_move:
  assumes "sweepgen (spans st s) \<noteq> mheap_sweepgen st + 1"
    and "sweepgen (spans st s) \<noteq> mheap_sweepgen st + 3"
    and "wasempty \<longrightarrow> s \<in> set (empty (central st)) \<and> s \<notin> set (nonempty (central st))"
    and "\<not> wasempty \<and> allocCount (spans st s) = 0 \<longrightarrow> s \<in> set (nonempty (central st))"
  shows "\<exists>st2.
     freeSpan env s False wasempty st =
       (if allocCount (spans st s) \<noteq> 0 then Inr (False, st2)
        else seq (ext (EvHeapFree s) (mheap_freeSpan env s)) (\<lambda>_. ret True) st2) \<and>
     nonempty (central st2) =
       (if allocCount (spans st s) \<noteq> 0
        then (if wasempty then s # nonempty (central st) else nonempty (central st))
        else removeAll s (nonempty (central st))) \<and>
     empty (central st2) = (if wasempty then removeAll s (empty (central st)) else empty (central st)) \<and>
     \<not> lock (central st2) \<and>
     events st2 = events st @ [EvLock] @
        (if wasempty then [EvRemove EmptyList s, EvInsert NonemptyList s] else []) @
        (if allocCount (spans st s) \<noteq> 0 then [] else [EvRemove NonemptyList s]) @ [EvUnlock] \<and>
     spans st2 = (spans st)(s := (spans st s)\<lparr>needzero := 1, sweepgen := mheap_sweepgen st\<rparr>)"
  using assms
  apply (simp add: freeSpan_def Let_def)
  apply (cases wasempty; cases "allocCount (spans st s) = 0")
     apply (simp_all add: seq_simps inList_def state_fields ret_def)
   apply (intro exI conjI, rule refl, simp_all add: state_fields)+
  done

text \<open>
  C2. \<^verbatim>\<open>freeSpan\<close>, called on a span that is not cached and that is linked where the
  call says (in a list when \<open>preserve\<close> is set; in the empty list when \<open>wasempty\<close> is
  set; in the nonempty list when the span is to be freed), returns, and the value is
  true exactly when \<open>preserve\<close> is false and the span has no allocated object.
  With \<open>preserve\<close> it stamps the span with the current sweep generation and returns
  false: no lock, no list, no counter and no other span is touched (the stamp comes
  with the \<^verbatim>\<open>needzero\<close> flag of C10). Without it, the span goes from the empty to the
  front of the nonempty list under the lock when \<open>wasempty\<close> is set; a span with
  allocated objects stays there and false is returned; a span with none is removed
  from the nonempty list, is then in neither list, and after the unlock is handed to
  \<^verbatim>\<open>mheap_.freeSpan\<close>, once, true being returned when that call returns.
\<close>

theorem freeSpan_reports_returned:
  assumes "sweepgen (spans st s) \<noteq> mheap_sweepgen st + 1"
    and "sweepgen (spans st s) \<noteq> mheap_sweepgen st + 3"
    and "preserve \<longrightarrow> inList s st"
    and "\<not> preserve \<and> wasempty \<longrightarrow>
           s \<in> set (empty (central st)) \<and> s \<notin> set (nonempty (central st))"
    and "\<not> preserve \<and> \<not> wasempty \<and> allocCount (spans st s) = 0 \<longrightarrow>
           s \<in> set (nonempty (central st)) \<and> s \<notin> set (empty (central st))"
  shows "(\<forall>r st'. freeSpan env s preserve wasempty st = Inr (r, st') \<longrightarrow>
            r = (\<not> preserve \<and> allocCount (spans st s) = 0) \<and>
            events st' = events st @
              (if preserve then []
               else [EvLock] @
                    (if wasempty then [EvRemove EmptyList s, EvInsert NonemptyList s] else []) @
                    (if allocCount (spans st s) = 0
                     then [EvRemove NonemptyList s, EvUnlock, EvHeapFree s]
                     else [EvUnlock]))) \<and>
         (if preserve
          then freeSpan env s preserve wasempty st =
                 Inr (False, st\<lparr>spans := (spans st)
                        (s := (spans st s)\<lparr>needzero := 1, sweepgen := mheap_sweepgen st\<rparr>)\<rparr>)
          else \<exists>st2.
                 freeSpan env s preserve wasempty st =
                   (if allocCount (spans st s) \<noteq> 0 then Inr (False, st2)
                    else seq (ext (EvHeapFree s) (mheap_freeSpan env s)) (\<lambda>_. ret True) st2) \<and>
                 nonempty (central st2) =
                   (if allocCount (spans st s) \<noteq> 0
                    then (if wasempty then s # nonempty (central st) else nonempty (central st))
                    else removeAll s (nonempty (central st))) \<and>
                 empty (central st2) =
                   (if wasempty then removeAll s (empty (central st)) else empty (central st)) \<and>
                 (allocCount (spans st s) = 0 \<longrightarrow> \<not> inList s st2) \<and>
                 \<not> lock (central st2) \<and>
                 events st2 = events st @ [EvLock] @
                   (if wasempty then [EvRemove EmptyList s, EvInsert NonemptyList s] else []) @
                   (if allocCount (spans st s) \<noteq> 0 then [] else [EvRemove NonemptyList s]) @
                   [EvUnlock])"
proof (intro conjI allI impI)
  fix r st'
  assume ret: "freeSpan env s preserve wasempty st = Inr (r, st')"
  show "r = (\<not> preserve \<and> allocCount (spans st s) = 0)"
    using ret by (rule freeSpan_value)
  show "events st' = events st @
          (if preserve then []
           else [EvLock] @
                (if wasempty then [EvRemove EmptyList s, EvInsert NonemptyList s] else []) @
                (if allocCount (spans st s) = 0
                 then [EvRemove NonemptyList s, EvUnlock, EvHeapFree s]
                 else [EvUnlock]))"
    using ret by (rule freeSpan_events)
next
  show "if preserve
        then freeSpan env s preserve wasempty st =
               Inr (False, st\<lparr>spans := (spans st)
                      (s := (spans st s)\<lparr>needzero := 1, sweepgen := mheap_sweepgen st\<rparr>)\<rparr>)
        else \<exists>st2.
               freeSpan env s preserve wasempty st =
                 (if allocCount (spans st s) \<noteq> 0 then Inr (False, st2)
                  else seq (ext (EvHeapFree s) (mheap_freeSpan env s)) (\<lambda>_. ret True) st2) \<and>
               nonempty (central st2) =
                 (if allocCount (spans st s) \<noteq> 0
                  then (if wasempty then s # nonempty (central st) else nonempty (central st))
                  else removeAll s (nonempty (central st))) \<and>
               empty (central st2) =
                 (if wasempty then removeAll s (empty (central st)) else empty (central st)) \<and>
               (allocCount (spans st s) = 0 \<longrightarrow> \<not> inList s st2) \<and>
               \<not> lock (central st2) \<and>
               events st2 = events st @ [EvLock] @
                 (if wasempty then [EvRemove EmptyList s, EvInsert NonemptyList s] else []) @
                 (if allocCount (spans st s) \<noteq> 0 then [] else [EvRemove NonemptyList s]) @
                 [EvUnlock]"
  proof (cases preserve)
    case True
    with assms show ?thesis
      by (simp add: freeSpan_preserve)
  next
    case False
    from False assms
    have "\<exists>st2.
       freeSpan env s False wasempty st =
         (if allocCount (spans st s) \<noteq> 0 then Inr (False, st2)
          else seq (ext (EvHeapFree s) (mheap_freeSpan env s)) (\<lambda>_. ret True) st2) \<and>
       nonempty (central st2) =
         (if allocCount (spans st s) \<noteq> 0
          then (if wasempty then s # nonempty (central st) else nonempty (central st))
          else removeAll s (nonempty (central st))) \<and>
       empty (central st2) = (if wasempty then removeAll s (empty (central st)) else empty (central st)) \<and>
       \<not> lock (central st2) \<and>
       events st2 = events st @ [EvLock] @
          (if wasempty then [EvRemove EmptyList s, EvInsert NonemptyList s] else []) @
          (if allocCount (spans st s) \<noteq> 0 then [] else [EvRemove NonemptyList s]) @ [EvUnlock] \<and>
       spans st2 = (spans st)(s := (spans st s)\<lparr>needzero := 1, sweepgen := mheap_sweepgen st\<rparr>)"
      by (intro freeSpan_move) auto
    then obtain st2 where st2:
      "freeSpan env s False wasempty st =
         (if allocCount (spans st s) \<noteq> 0 then Inr (False, st2)
          else seq (ext (EvHeapFree s) (mheap_freeSpan env s)) (\<lambda>_. ret True) st2)"
      "nonempty (central st2) =
         (if allocCount (spans st s) \<noteq> 0
          then (if wasempty then s # nonempty (central st) else nonempty (central st))
          else removeAll s (nonempty (central st)))"
      "empty (central st2) = (if wasempty then removeAll s (empty (central st)) else empty (central st))"
      "\<not> lock (central st2)"
      "events st2 = events st @ [EvLock] @
          (if wasempty then [EvRemove EmptyList s, EvInsert NonemptyList s] else []) @
          (if allocCount (spans st s) \<noteq> 0 then [] else [EvRemove NonemptyList s]) @ [EvUnlock]"
      by blast
    have unlinked: "allocCount (spans st s) = 0 \<longrightarrow> \<not> inList s st2"
      using st2(2,3) False assms(5) by (auto simp: inList_def)
    from False st2 unlinked show ?thesis
      by (simp only: if_False) (rule exI [of _ st2], simp)
  qed
qed

text \<open>
  Three calls on the swept span: with \<open>preserve\<close>; without it, the span in the
  empty list (\<open>wasempty\<close>); without it, the span in the nonempty list.
\<close>

theorem freeSpan_reports_returned_witness:
  "sweepgen (spans ex_swept 3) \<noteq> mheap_sweepgen ex_swept + 1 \<and>
   sweepgen (spans ex_swept 3) \<noteq> mheap_sweepgen ex_swept + 3 \<and>
   inList 3 ex_swept \<and>
   3 \<in> set (empty (central ex_swept)) \<and> 3 \<notin> set (nonempty (central ex_swept)) \<and>
   allocCount (spans ex_swept 3) = 0 \<and>
   sweepgen (spans ex_swept_listed 3) \<noteq> mheap_sweepgen ex_swept_listed + 1 \<and>
   sweepgen (spans ex_swept_listed 3) \<noteq> mheap_sweepgen ex_swept_listed + 3 \<and>
   3 \<in> set (nonempty (central ex_swept_listed)) \<and> 3 \<notin> set (empty (central ex_swept_listed)) \<and>
   allocCount (spans ex_swept_listed 3) = 0 \<and>
   freeSpan ex_env 3 True False ex_swept =
     Inr (False, ex_swept\<lparr>spans := (spans ex_swept)
            (3 := (spans ex_swept 3)\<lparr>needzero := 1, sweepgen := mheap_sweepgen ex_swept\<rparr>)\<rparr>) \<and>
   (\<exists>st'. freeSpan ex_env 3 False True ex_swept = Inr (True, st') \<and>
          events st' = [EvLock, EvRemove EmptyList 3, EvInsert NonemptyList 3,
                        EvRemove NonemptyList 3, EvUnlock, EvHeapFree 3] \<and>
          \<not> inList 3 st') \<and>
   (\<exists>st'. freeSpan ex_env 3 False False ex_swept_listed = Inr (True, st') \<and>
          events st' = [EvLock, EvRemove NonemptyList 3, EvUnlock, EvHeapFree 3] \<and>
          \<not> inList 3 st')"
proof -
  have pre:
    "sweepgen (spans ex_swept 3) \<noteq> mheap_sweepgen ex_swept + 1"
    "sweepgen (spans ex_swept 3) \<noteq> mheap_sweepgen ex_swept + 3"
    "inList 3 ex_swept"
    "3 \<in> set (empty (central ex_swept))" "3 \<notin> set (nonempty (central ex_swept))"
    "allocCount (spans ex_swept 3) = 0"
    by (simp_all add: ex_defs inList_def)
  have pre':
    "sweepgen (spans ex_swept_listed 3) \<noteq> mheap_sweepgen ex_swept_listed + 1"
    "sweepgen (spans ex_swept_listed 3) \<noteq> mheap_sweepgen ex_swept_listed + 3"
    "3 \<in> set (nonempty (central ex_swept_listed))" "3 \<notin> set (empty (central ex_swept_listed))"
    "allocCount (spans ex_swept_listed 3) = 0"
    by (simp_all add: ex_defs)
  have kept: "freeSpan ex_env 3 True False ex_swept =
     Inr (False, ex_swept\<lparr>spans := (spans ex_swept)
            (3 := (spans ex_swept 3)\<lparr>needzero := 1, sweepgen := mheap_sweepgen ex_swept\<rparr>)\<rparr>)"
    using freeSpan_reports_returned [of ex_swept 3 True False ex_env] pre
    by simp
  have "\<exists>st2.
      freeSpan ex_env 3 False True ex_swept =
        seq (ext (EvHeapFree 3) (mheap_freeSpan ex_env 3)) (\<lambda>_. ret True) st2 \<and>
      \<not> inList 3 st2 \<and>
      events st2 = events ex_swept @
        [EvLock, EvRemove EmptyList 3, EvInsert NonemptyList 3, EvRemove NonemptyList 3, EvUnlock]"
    using freeSpan_reports_returned [of ex_swept 3 False True ex_env] pre
    by auto
  then obtain st2 where st2:
    "freeSpan ex_env 3 False True ex_swept =
       seq (ext (EvHeapFree 3) (mheap_freeSpan ex_env 3)) (\<lambda>_. ret True) st2"
    "\<not> inList 3 st2"
    "events st2 = events ex_swept @
       [EvLock, EvRemove EmptyList 3, EvInsert NonemptyList 3, EvRemove NonemptyList 3, EvUnlock]"
    by blast
  have "freeSpan ex_env 3 False True ex_swept =
          Inr (True, st2\<lparr>events := events st2 @ [EvHeapFree 3]\<rparr>)"
    using st2(1) by (simp add: ex_env_def seq_def ext_def ret_def)
  moreover have "\<not> inList 3 (st2\<lparr>events := events st2 @ [EvHeapFree 3]\<rparr>)"
    using st2(2) by (simp add: inList_def)
  moreover have "events (st2\<lparr>events := events st2 @ [EvHeapFree 3]\<rparr>) =
      [EvLock, EvRemove EmptyList 3, EvInsert NonemptyList 3, EvRemove NonemptyList 3,
       EvUnlock, EvHeapFree 3]"
    using st2(3) by (simp add: ex_defs)
  ultimately have freed: "\<exists>st'. freeSpan ex_env 3 False True ex_swept = Inr (True, st') \<and>
      events st' = [EvLock, EvRemove EmptyList 3, EvInsert NonemptyList 3,
                    EvRemove NonemptyList 3, EvUnlock, EvHeapFree 3] \<and>
      \<not> inList 3 st'"
    by blast
  have "\<exists>st3.
      freeSpan ex_env 3 False False ex_swept_listed =
        seq (ext (EvHeapFree 3) (mheap_freeSpan ex_env 3)) (\<lambda>_. ret True) st3 \<and>
      \<not> inList 3 st3 \<and>
      events st3 = events ex_swept_listed @ [EvLock, EvRemove NonemptyList 3, EvUnlock]"
    using freeSpan_reports_returned [of ex_swept_listed 3 False False ex_env] pre'
    by auto
  then obtain st3 where st3:
    "freeSpan ex_env 3 False False ex_swept_listed =
       seq (ext (EvHeapFree 3) (mheap_freeSpan ex_env 3)) (\<lambda>_. ret True) st3"
    "\<not> inList 3 st3"
    "events st3 = events ex_swept_listed @ [EvLock, EvRemove NonemptyList 3, EvUnlock]"
    by blast
  have "freeSpan ex_env 3 False False ex_swept_listed =
          Inr (True, st3\<lparr>events := events st3 @ [EvHeapFree 3]\<rparr>)"
    using st3(1) by (simp add: ex_env_def seq_def ext_def ret_def)
  moreover have "\<not> inList 3 (st3\<lparr>events := events st3 @ [EvHeapFree 3]\<rparr>)"
    using st3(2) by (simp add: inList_def)
  moreover have "events (st3\<lparr>events := events st3 @ [EvHeapFree 3]\<rparr>) =
      [EvLock, EvRemove NonemptyList 3, EvUnlock, EvHeapFree 3]"
    using st3(3) by (simp add: ex_defs)
  ultimately have freed': "\<exists>st'. freeSpan ex_env 3 False False ex_swept_listed = Inr (True, st') \<and>
      events st' = [EvLock, EvRemove NonemptyList 3, EvUnlock, EvHeapFree 3] \<and>
      \<not> inList 3 st'"
    by blast
  from pre pre' kept freed freed' show ?thesis
    by blast
qed

lemma freeSpan_needzero_kept:
  assumes "sweepgen (spans st s) \<noteq> mheap_sweepgen st + 1"
    and "sweepgen (spans st s) \<noteq> mheap_sweepgen st + 3"
    and "preserve \<or> allocCount (spans st s) \<noteq> 0"
  shows "needzero (spans (final_state (freeSpan env s preserve wasempty st)) s) = 1"
  using assms unfolding freeSpan_def prim_defs final_state_def
  by (auto simp: Let_def split: if_splits sum.splits prod.splits)

lemma freeSpan_needzero_freed:
  assumes "sweepgen (spans st s) \<noteq> mheap_sweepgen st + 1"
    and "sweepgen (spans st s) \<noteq> mheap_sweepgen st + 3"
    and "\<not> preserve" "allocCount (spans st s) = 0"
  shows "\<exists>st2. needzero (spans st2 s) = 1 \<and>
     (final_state (freeSpan env s preserve wasempty st) = st2 \<or>
      freeSpan env s preserve wasempty st =
        seq (ext (EvHeapFree s) (mheap_freeSpan env s)) (\<lambda>_. ret True) st2)"
  using assms
  apply (simp add: freeSpan_def Let_def seq_simps state_fields inList_def)
  apply (intro conjI impI)
  apply (simp_all add: throw_def final_state_def state_fields)
  apply ((rule exI, rule conjI, rule_tac [2] disjI2, rule_tac [2] refl, simp add: state_fields)
       | (rule exI, rule conjI, rule_tac [2] disjI1, rule_tac [2] refl, simp add: state_fields))+
  done

text \<open>
  C10. A call of \<^verbatim>\<open>freeSpan\<close> that passes the test for a cached span sets \<^verbatim>\<open>needzero\<close>
  of the span to 1, whatever comes after. With \<open>preserve\<close> set, and for a span that
  still has allocated objects, the flag is 1 in the state in which the call ends
  (by a return or a throw). Otherwise the flag is 1 in the state in which the call
  throws, or in the state that is handed to \<^verbatim>\<open>mheap_.freeSpan\<close>.
\<close>

theorem freeSpan_sets_needzero:
  assumes "sweepgen (spans st s) \<noteq> mheap_sweepgen st + 1"
    and "sweepgen (spans st s) \<noteq> mheap_sweepgen st + 3"
  shows "(preserve \<or> allocCount (spans st s) \<noteq> 0 \<longrightarrow>
            needzero (spans (final_state (freeSpan env s preserve wasempty st)) s) = 1) \<and>
         (\<exists>st2. needzero (spans st2 s) = 1 \<and>
            (final_state (freeSpan env s preserve wasempty st) = st2 \<or>
             freeSpan env s preserve wasempty st =
               seq (ext (EvHeapFree s) (mheap_freeSpan env s)) (\<lambda>_. ret True) st2))"
proof (cases "preserve \<or> allocCount (spans st s) \<noteq> 0")
  case True
  with assms have "needzero (spans (final_state (freeSpan env s preserve wasempty st)) s) = 1"
    by (intro freeSpan_needzero_kept)
  then show ?thesis by blast
next
  case False
  with assms freeSpan_needzero_freed [of st s preserve env wasempty] show ?thesis
    by simp
qed

theorem freeSpan_sets_needzero_witness:
  "needzero (spans (ex_swept\<lparr>central := ex_central\<lparr>empty := [5]\<rparr>\<rparr>) 5) = 0 \<and>
   sweepgen (spans (ex_swept\<lparr>central := ex_central\<lparr>empty := [5]\<rparr>\<rparr>) 5) \<noteq>
     mheap_sweepgen (ex_swept\<lparr>central := ex_central\<lparr>empty := [5]\<rparr>\<rparr>) + 1 \<and>
   sweepgen (spans (ex_swept\<lparr>central := ex_central\<lparr>empty := [5]\<rparr>\<rparr>) 5) \<noteq>
     mheap_sweepgen (ex_swept\<lparr>central := ex_central\<lparr>empty := [5]\<rparr>\<rparr>) + 3 \<and>
   needzero (spans (final_state
     (freeSpan ex_env 5 True False (ex_swept\<lparr>central := ex_central\<lparr>empty := [5]\<rparr>\<rparr>))) 5) = 1"
  using freeSpan_sets_needzero [of "ex_swept\<lparr>central := ex_central\<lparr>empty := [5]\<rparr>\<rparr>" 5 True ex_env False]
  by (simp add: ex_defs)

subsection \<open>uncacheSpan\<close>

text \<open>
  The difference \<^verbatim>\<open>int(s.nelems) - int(s.allocCount)\<close> is compared as a signed
  number. For a span that keeps \<^verbatim>\<open>allocCount\<close> at most \<^verbatim>\<open>nelems\<close>, and \<^verbatim>\<open>nelems\<close> in the
  range of \<^verbatim>\<open>int\<close>, it is positive exactly when it is not zero.
\<close>

lemma sint_small:
  fixes d :: "64 word"
  assumes "unat d < 2 ^ 63"
  shows "sint d = int (unat d)"
proof -
  have "int (unat d) < int (2 ^ 63)"
    using assms by (simp only: of_nat_less_iff)
  then have "uint d < 2 ^ 63"
    by simp
  moreover have "- (2 ^ 63) \<le> uint d"
    by (rule order_trans [of _ 0]) simp_all
  ultimately have "signed_take_bit (63::nat) (uint d) = uint d"
    by (intro signed_take_bit_int_eq_self)
  then show ?thesis
    by (simp add: sint_uint)
qed

lemma free_slots_signed:
  fixes n :: "64 word" and a :: "16 word"
  assumes "ucast a \<le> n" "unat n < 2 ^ 63"
  shows "(0 <s n - ucast a) = (ucast a \<noteq> n)"
proof -
  have "unat (n - ucast a) \<le> unat n"
    using assms(1) by (simp add: unat_sub)
  with assms(2) have "unat (n - ucast a) < 2 ^ 63"
    by simp
  then have "sint (n - ucast a) = int (unat (n - ucast a))"
    by (rule sint_small)
  then show ?thesis
    by (auto simp add: word_sless_alt unat_gt_0 simp del: of_nat_unat)
qed

lemma uncacheSpan_steps:
  assumes "allocCount (spans st s) \<noteq> 0"
    and "0 <s nelems (spans st s) - ucast (allocCount (spans st s)) \<longrightarrow>
           s \<in> set (empty (central st)) \<and> s \<notin> set (nonempty (central st))"
  shows "\<exists>st3.
     uncacheSpan env s st =
       (if sweepgen (spans st s) = mheap_sweepgen st + 1
        then seq (ext (EvSweep s False) (sweep env s False)) (\<lambda>_. ret ()) st3
        else Inr ((), st3)) \<and>
     nonempty (central st3) =
       (if 0 <s nelems (spans st s) - ucast (allocCount (spans st s))
        then s # nonempty (central st) else nonempty (central st)) \<and>
     empty (central st3) =
       (if 0 <s nelems (spans st s) - ucast (allocCount (spans st s))
        then removeAll s (empty (central st)) else empty (central st)) \<and>
     lock (central st3) =
       (if 0 <s nelems (spans st s) - ucast (allocCount (spans st s))
        then False else lock (central st)) \<and>
     nmalloc (central st3) =
       (if 0 <s nelems (spans st s) - ucast (allocCount (spans st s))
        then nmalloc (central st) - (nelems (spans st s) - ucast (allocCount (spans st s)))
        else nmalloc (central st)) \<and>
     heap_live st3 =
       (if 0 <s nelems (spans st s) - ucast (allocCount (spans st s)) \<and>
           sweepgen (spans st s) \<noteq> mheap_sweepgen st + 1
        then heap_live st -
               (nelems (spans st s) - ucast (allocCount (spans st s))) * elemsize (spans st s)
        else heap_live st) \<and>
     events st3 = events st @
       (if 0 <s nelems (spans st s) - ucast (allocCount (spans st s))
        then [EvLock, EvRemove EmptyList s, EvInsert NonemptyList s, EvUnlock] else []) \<and>
     spans st3 = (spans st)(s := (spans st s)\<lparr>sweepgen :=
        (if sweepgen (spans st s) = mheap_sweepgen st + 1 then mheap_sweepgen st - 1
         else mheap_sweepgen st)\<rparr>) \<and>
     mheap_sweepgen st3 = mheap_sweepgen st"
  using assms
  apply (simp add: uncacheSpan_def Let_def)
  apply (cases "sweepgen (spans st s) = mheap_sweepgen st + 1";
         cases "0 <s nelems (spans st s) - ucast (allocCount (spans st s))")
     apply (simp_all add: seq_simps inList_def state_fields ret_def)
   apply (intro exI conjI, rule refl, simp_all add: state_fields algebra_simps)+
  done

lemma uncacheSpan_events:
  "uncacheSpan env s st = Inr (u, st') \<Longrightarrow>
   events st' = events st @
     (if 0 <s nelems (spans st s) - ucast (allocCount (spans st s))
      then [EvLock, EvRemove EmptyList s, EvInsert NonemptyList s, EvUnlock] else []) @
     (if sweepgen (spans st s) = mheap_sweepgen st + 1 then [EvSweep s False] else [])"
  unfolding uncacheSpan_def prim_defs
  by (auto simp: Let_def split: if_splits sum.splits prod.splits)

text \<open>
  C3, as the code has it. \<^verbatim>\<open>uncacheSpan\<close> of a leased span (linked in the empty list,
  at least one object allocated) moves the span only when it has a free object, that
  is when \<^verbatim>\<open>int(s.nelems) - int(s.allocCount)\<close> is positive: then, between taking and
  releasing the lock, the span is removed from the empty list and inserted at the
  front of the nonempty list. A span with no free object is left in the empty list,
  and the lock is not taken. The state so reached is the one the call returns, or,
  for a stale span, the one it passes to the sweep.
\<close>

theorem uncacheSpan_moves_span_with_free_object:
  assumes "allocCount (spans st s) \<noteq> 0"
    and "s \<in> set (empty (central st))" and "s \<notin> set (nonempty (central st))"
  shows "\<exists>st3.
     uncacheSpan env s st =
       (if sweepgen (spans st s) = mheap_sweepgen st + 1
        then seq (ext (EvSweep s False) (sweep env s False)) (\<lambda>_. ret ()) st3
        else Inr ((), st3)) \<and>
     (if 0 <s nelems (spans st s) - ucast (allocCount (spans st s))
      then nonempty (central st3) = s # nonempty (central st) \<and>
           empty (central st3) = removeAll s (empty (central st)) \<and>
           events st3 = events st @
             [EvLock, EvRemove EmptyList s, EvInsert NonemptyList s, EvUnlock]
      else nonempty (central st3) = nonempty (central st) \<and>
           empty (central st3) = empty (central st) \<and>
           events st3 = events st)"
proof -
  from assms uncacheSpan_steps [of st s env] obtain st3 where
    "uncacheSpan env s st =
       (if sweepgen (spans st s) = mheap_sweepgen st + 1
        then seq (ext (EvSweep s False) (sweep env s False)) (\<lambda>_. ret ()) st3
        else Inr ((), st3))"
    "nonempty (central st3) =
       (if 0 <s nelems (spans st s) - ucast (allocCount (spans st s))
        then s # nonempty (central st) else nonempty (central st))"
    "empty (central st3) =
       (if 0 <s nelems (spans st s) - ucast (allocCount (spans st s))
        then removeAll s (empty (central st)) else empty (central st))"
    "events st3 = events st @
       (if 0 <s nelems (spans st s) - ucast (allocCount (spans st s))
        then [EvLock, EvRemove EmptyList s, EvInsert NonemptyList s, EvUnlock] else [])"
    by auto
  then show ?thesis
    by (intro exI [of _ st3]) simp
qed

theorem uncacheSpan_moves_span_with_free_object_witness:
  "allocCount (spans ex_leased 3) \<noteq> 0 \<and> 3 \<in> set (empty (central ex_leased)) \<and>
   3 \<notin> set (nonempty (central ex_leased)) \<and>
   (\<exists>st3. uncacheSpan ex_env 3 ex_leased = Inr ((), st3) \<and>
      nonempty (central st3) = [3] \<and> empty (central st3) = [] \<and>
      events st3 = [EvLock, EvRemove EmptyList 3, EvInsert NonemptyList 3, EvUnlock])"
proof -
  have pre: "allocCount (spans ex_leased 3) \<noteq> 0" "3 \<in> set (empty (central ex_leased))"
    "3 \<notin> set (nonempty (central ex_leased))"
    by (simp_all add: ex_defs)
  have pos: "0 <s nelems (spans ex_leased 3) - ucast (allocCount (spans ex_leased 3))"
    by (simp add: ex_defs word_sless_alt)
  have fresh: "sweepgen (spans ex_leased 3) \<noteq> mheap_sweepgen ex_leased + 1"
    by (simp add: ex_defs)
  from uncacheSpan_moves_span_with_free_object [OF pre, of ex_env] pos fresh
  have "\<exists>st3. uncacheSpan ex_env 3 ex_leased = Inr ((), st3) \<and>
      nonempty (central st3) = 3 # nonempty (central ex_leased) \<and>
      empty (central st3) = removeAll 3 (empty (central ex_leased)) \<and>
      events st3 = events ex_leased @
        [EvLock, EvRemove EmptyList 3, EvInsert NonemptyList 3, EvUnlock]"
    by simp
  then have "\<exists>st3. uncacheSpan ex_env 3 ex_leased = Inr ((), st3) \<and>
      nonempty (central st3) = [3] \<and> empty (central st3) = [] \<and>
      events st3 = [EvLock, EvRemove EmptyList 3, EvInsert NonemptyList 3, EvUnlock]"
    by (simp add: ex_defs)
  with pre show ?thesis by blast
qed

text \<open>
  The claim of C3 as it is written fails: a leased span whose 170 objects are all
  allocated is released, and it is still in the empty list, the nonempty list still
  empty.
\<close>

theorem uncacheSpan_full_span_stays_counterexample:
  "uncacheSpan ex_env 3 ex_leased_full = Inr ((), atomic_Store_sweepgen 3 4 ex_leased_full) \<and>
   empty (central (atomic_Store_sweepgen 3 4 ex_leased_full)) = [3] \<and>
   nonempty (central (atomic_Store_sweepgen 3 4 ex_leased_full)) = []"
  by (simp add: uncacheSpan_def Let_def ex_leased_full_def ex_state_def ex_central_def ex_span_def
      atomic_Store_sweepgen_def ret_def)

text \<open>
  C4. \<^verbatim>\<open>uncacheSpan\<close> of a span with an allocated object, at most \<^verbatim>\<open>nelems\<close> of them,
  linked in the empty list if it has a free object. The span is stale when its sweep
  generation is the global one plus 1. A call that returns has run the sweep, with
  \<open>preserve\<close> false, exactly when the span is stale, and then as the last step,
  after the list operations and after the lock was released. The state that the call
  returns when the span is not stale, and passes to the sweep when it is, has the
  lock as it was found (released, if the list was touched), and \<^verbatim>\<open>heap_live\<close>
  untouched for a stale span, lowered by \<^verbatim>\<open>(nelems - allocCount) * elemsize\<close> for any
  other.
\<close>

theorem uncacheSpan_sweeps_iff_stale:
  assumes "allocCount (spans st s) \<noteq> 0"
    and "ucast (allocCount (spans st s)) \<le> nelems (spans st s)"
    and "unat (nelems (spans st s)) < 2 ^ 63"
    and "ucast (allocCount (spans st s)) \<noteq> nelems (spans st s) \<longrightarrow>
           s \<in> set (empty (central st)) \<and> s \<notin> set (nonempty (central st))"
  shows "(\<forall>u st'. uncacheSpan env s st = Inr (u, st') \<longrightarrow>
            events st' = events st @
              (if ucast (allocCount (spans st s)) \<noteq> nelems (spans st s)
               then [EvLock, EvRemove EmptyList s, EvInsert NonemptyList s, EvUnlock] else []) @
              (if sweepgen (spans st s) = mheap_sweepgen st + 1 then [EvSweep s False] else [])) \<and>
         (\<exists>st3.
            uncacheSpan env s st =
              (if sweepgen (spans st s) = mheap_sweepgen st + 1
               then seq (ext (EvSweep s False) (sweep env s False)) (\<lambda>_. ret ()) st3
               else Inr ((), st3)) \<and>
            heap_live st3 =
              (if sweepgen (spans st s) = mheap_sweepgen st + 1 then heap_live st
               else heap_live st -
                      (nelems (spans st s) - ucast (allocCount (spans st s))) * elemsize (spans st s)) \<and>
            events st3 = events st @
              (if ucast (allocCount (spans st s)) \<noteq> nelems (spans st s)
               then [EvLock, EvRemove EmptyList s, EvInsert NonemptyList s, EvUnlock] else []) \<and>
            (\<not> lock (central st) \<longrightarrow> \<not> lock (central st3)))"
proof -
  have pos: "(0 <s nelems (spans st s) - ucast (allocCount (spans st s))) =
             (ucast (allocCount (spans st s)) \<noteq> nelems (spans st s))"
    using assms(2,3) by (rule free_slots_signed)
  have ev: "\<forall>u st'. uncacheSpan env s st = Inr (u, st') \<longrightarrow>
            events st' = events st @
              (if ucast (allocCount (spans st s)) \<noteq> nelems (spans st s)
               then [EvLock, EvRemove EmptyList s, EvInsert NonemptyList s, EvUnlock] else []) @
              (if sweepgen (spans st s) = mheap_sweepgen st + 1 then [EvSweep s False] else [])"
    using uncacheSpan_events [of env s st] by (simp only: pos) blast
  from assms(1,4) pos uncacheSpan_steps [of st s env] obtain st3 where st3:
    "uncacheSpan env s st =
       (if sweepgen (spans st s) = mheap_sweepgen st + 1
        then seq (ext (EvSweep s False) (sweep env s False)) (\<lambda>_. ret ()) st3
        else Inr ((), st3))"
    "lock (central st3) =
       (if 0 <s nelems (spans st s) - ucast (allocCount (spans st s))
        then False else lock (central st))"
    "heap_live st3 =
       (if 0 <s nelems (spans st s) - ucast (allocCount (spans st s)) \<and>
           sweepgen (spans st s) \<noteq> mheap_sweepgen st + 1
        then heap_live st -
               (nelems (spans st s) - ucast (allocCount (spans st s))) * elemsize (spans st s)
        else heap_live st)"
    "events st3 = events st @
       (if 0 <s nelems (spans st s) - ucast (allocCount (spans st s))
        then [EvLock, EvRemove EmptyList s, EvInsert NonemptyList s, EvUnlock] else [])"
    by auto
  have live: "heap_live st3 =
      (if sweepgen (spans st s) = mheap_sweepgen st + 1 then heap_live st
       else heap_live st -
              (nelems (spans st s) - ucast (allocCount (spans st s))) * elemsize (spans st s))"
    using st3(3) pos by auto
  have "\<exists>st3.
      uncacheSpan env s st =
        (if sweepgen (spans st s) = mheap_sweepgen st + 1
         then seq (ext (EvSweep s False) (sweep env s False)) (\<lambda>_. ret ()) st3
         else Inr ((), st3)) \<and>
      heap_live st3 =
        (if sweepgen (spans st s) = mheap_sweepgen st + 1 then heap_live st
         else heap_live st -
                (nelems (spans st s) - ucast (allocCount (spans st s))) * elemsize (spans st s)) \<and>
      events st3 = events st @
        (if ucast (allocCount (spans st s)) \<noteq> nelems (spans st s)
         then [EvLock, EvRemove EmptyList s, EvInsert NonemptyList s, EvUnlock] else []) \<and>
      (\<not> lock (central st) \<longrightarrow> \<not> lock (central st3))"
    using st3(1,2,4) live pos by (intro exI [of _ st3]) simp
  with ev show ?thesis by blast
qed

text \<open>
  The stale span \<open>ex_stale\<close> is swept by the call and \<^verbatim>\<open>heap_live\<close> stays 8192; the
  span \<open>ex_leased\<close>, leased in the current cycle, is not swept and \<^verbatim>\<open>heap_live\<close> goes
  down by the 96 bytes of its two free objects.
\<close>

theorem uncacheSpan_sweeps_iff_stale_witness:
  "allocCount (spans ex_stale 3) \<noteq> 0 \<and>
   ucast (allocCount (spans ex_stale 3)) \<le> nelems (spans ex_stale 3) \<and>
   unat (nelems (spans ex_stale 3)) < 2 ^ 63 \<and>
   3 \<in> set (empty (central ex_stale)) \<and> 3 \<notin> set (nonempty (central ex_stale)) \<and>
   sweepgen (spans ex_stale 3) = mheap_sweepgen ex_stale + 1 \<and>
   sweepgen (spans ex_leased 3) \<noteq> mheap_sweepgen ex_leased + 1 \<and>
   (\<exists>st'. uncacheSpan ex_env 3 ex_stale = Inr ((), st') \<and>
      events st' = [EvLock, EvRemove EmptyList 3, EvInsert NonemptyList 3, EvUnlock, EvSweep 3 False] \<and>
      heap_live st' = 8192) \<and>
   (\<exists>st'. uncacheSpan ex_env 3 ex_leased = Inr ((), st') \<and>
      events st' = [EvLock, EvRemove EmptyList 3, EvInsert NonemptyList 3, EvUnlock] \<and>
      heap_live st' = 8096)"
proof -
  have pre:
    "allocCount (spans ex_stale 3) \<noteq> 0"
    "ucast (allocCount (spans ex_stale 3)) \<le> nelems (spans ex_stale 3)"
    "unat (nelems (spans ex_stale 3)) < 2 ^ 63"
    "3 \<in> set (empty (central ex_stale))" "3 \<notin> set (nonempty (central ex_stale))"
    "sweepgen (spans ex_stale 3) = mheap_sweepgen ex_stale + 1"
    by (simp_all add: ex_defs)
  have pre':
    "allocCount (spans ex_leased 3) \<noteq> 0"
    "ucast (allocCount (spans ex_leased 3)) \<le> nelems (spans ex_leased 3)"
    "unat (nelems (spans ex_leased 3)) < 2 ^ 63"
    "3 \<in> set (empty (central ex_leased))" "3 \<notin> set (nonempty (central ex_leased))"
    "sweepgen (spans ex_leased 3) \<noteq> mheap_sweepgen ex_leased + 1"
    by (simp_all add: ex_defs)
  from uncacheSpan_sweeps_iff_stale [of ex_stale 3 ex_env] pre
  obtain st3 where st3:
    "uncacheSpan ex_env 3 ex_stale =
       seq (ext (EvSweep 3 False) (sweep ex_env 3 False)) (\<lambda>_. ret ()) st3"
    "heap_live st3 = heap_live ex_stale"
    "events st3 = events ex_stale @
       (if ucast (allocCount (spans ex_stale 3)) \<noteq> nelems (spans ex_stale 3)
        then [EvLock, EvRemove EmptyList 3, EvInsert NonemptyList 3, EvUnlock] else [])"
    by auto
  have stale: "\<exists>st'. uncacheSpan ex_env 3 ex_stale = Inr ((), st') \<and>
      events st' = [EvLock, EvRemove EmptyList 3, EvInsert NonemptyList 3, EvUnlock, EvSweep 3 False] \<and>
      heap_live st' = 8192"
    using st3 by (simp add: ex_defs seq_def ext_def ret_def)
  from uncacheSpan_sweeps_iff_stale [of ex_leased 3 ex_env] pre'
  obtain st4 where st4:
    "uncacheSpan ex_env 3 ex_leased = Inr ((), st4)"
    "heap_live st4 = heap_live ex_leased -
       (nelems (spans ex_leased 3) - ucast (allocCount (spans ex_leased 3))) * elemsize (spans ex_leased 3)"
    "events st4 = events ex_leased @
       (if ucast (allocCount (spans ex_leased 3)) \<noteq> nelems (spans ex_leased 3)
        then [EvLock, EvRemove EmptyList 3, EvInsert NonemptyList 3, EvUnlock] else [])"
    by auto
  have fresh: "\<exists>st'. uncacheSpan ex_env 3 ex_leased = Inr ((), st') \<and>
      events st' = [EvLock, EvRemove EmptyList 3, EvInsert NonemptyList 3, EvUnlock] \<and>
      heap_live st' = 8096"
    using st4 by (simp add: ex_defs)
  from pre pre'(6) stale fresh show ?thesis
    by blast
qed

subsection \<open>cacheSpan\<close>

lemma call_refillAllocCache_fields:
  "spans (call_refillAllocCache env s b st) =
     (spans st)(s := (spans st s)\<lparr>allocCache := refillAllocCache env (spans st s) b\<rparr>)"
  "mheap_sweepgen (call_refillAllocCache env s b st) = mheap_sweepgen st"
  "heap_live (call_refillAllocCache env s b st) = heap_live st"
  "events (call_refillAllocCache env s b st) = events st"
  "central (call_refillAllocCache env s b st) = central st"
  by (simp_all add: call_refillAllocCache_def)

lemma havespan_throw:
  "nelems (spans st s) - ucast (allocCount (spans st s)) = 0 \<or>
   freeindex (spans st s) = nelems (spans st s) \<or>
   ucast (allocCount (spans st s)) = nelems (spans st s) \<Longrightarrow>
   havespan env sb s st = Inl (Throw ''span has no free objects'', st)"
  by (auto simp add: havespan_def Let_def throw_def)

lemma havespan_Inr:
  assumes "havespan env sb s st = Inr (r, st')"
  shows "r = Some s \<and>
     ucast (allocCount (spans st s)) \<noteq> nelems (spans st s) \<and>
     freeindex (spans st s) \<noteq> nelems (spans st s) \<and>
     nelems (spans st' s) = nelems (spans st s) \<and>
     allocCount (spans st' s) = allocCount (spans st s) \<and>
     freeindex (spans st' s) = freeindex (spans st s) \<and>
     elemsize (spans st' s) = elemsize (spans st s) \<and>
     sweepgen (spans st' s) = sweepgen (spans st s) \<and>
     heap_live st' = heap_live st + (sb - ucast (allocCount (spans st s)) * elemsize (spans st s)) \<and>
     nmalloc (central st') = nmalloc (central st) + (nelems (spans st s) - ucast (allocCount (spans st s))) \<and>
     nonempty (central st') = nonempty (central st) \<and>
     empty (central st') = empty (central st) \<and>
     lock (central st') = lock (central st) \<and>
     mheap_sweepgen st' = mheap_sweepgen st \<and>
     events st' = events st"
  using assms
  by (auto simp add: havespan_def Let_def throw_def ret_def state_fields call_refillAllocCache_fields
      split: if_splits)

lemma havespan_returns:
  assumes "ucast (allocCount (spans st s)) \<noteq> nelems (spans st s)"
    and "freeindex (spans st s) \<noteq> nelems (spans st s)"
  shows "\<exists>st'. havespan env sb s st = Inr (Some s, st')"
  using assms by (simp add: havespan_def Let_def ret_def)

lemma scan_nonempty_skip:
  assumes "\<forall>x\<in>set pre. sweepgen (spans st x) = sg - 1"
  shows "scan_nonempty env sg (pre @ rest) st = scan_nonempty env sg rest st"
  using assms by (induction pre) simp_all

lemma scan_nonempty_take:
  assumes "sweepgen (spans st s) \<noteq> sg - 2" and "sweepgen (spans st s) \<noteq> sg - 1"
    and "s \<in> set (nonempty (central st))" and "s \<notin> set (empty (central st))"
  shows "\<exists>st2. scan_nonempty env sg (s # rest) st = Inr (Some s, st2) \<and>
     nonempty (central st2) = removeAll s (nonempty (central st)) \<and>
     empty (central st2) = empty (central st) @ [s] \<and>
     spans st2 = spans st \<and> heap_live st2 = heap_live st \<and>
     nmalloc (central st2) = nmalloc (central st) \<and>
     mheap_sweepgen st2 = mheap_sweepgen st \<and> \<not> lock (central st2) \<and>
     events st2 = events st @ [EvRemove NonemptyList s, EvInsertBack EmptyList s, EvUnlock]"
  using assms
  by (simp add: seq_simps inList_def state_fields ret_def)


lemma cacheSpan_Inr_Some:
  assumes "cacheSpan fuel env st = Some (Inr (Some s, st'))"
  shows "\<exists>st1. cacheSpan_find fuel env st = Some (Inr (Some s, st1)) \<and>
           havespan env (spanBytes_of env st) s st1 = Inr (Some s, st')"
  using assms
  by (auto simp add: cacheSpan_def split: option.splits sum.splits prod.splits dest: havespan_Inr)

text \<open>
  The bound on the jumps to \<^verbatim>\<open>retry\<close> only cuts runs off: a run that ends within a
  bound ends the same way within any larger one.
\<close>

lemma cacheSpan_retry_more_fuel:
  "cacheSpan_retry k env sg st = Some r \<Longrightarrow> cacheSpan_retry (k + j) env sg st = Some r"
proof (induction k arbitrary: st)
  case 0
  then show ?case by simp
next
  case (Suc k)
  then show ?case
    by (auto split: sum.splits prod.splits option.splits scan.splits)
qed

lemma cacheSpan_more_fuel:
  "cacheSpan k env st = Some r \<Longrightarrow> cacheSpan (k + j) env st = Some r"
  by (auto simp: cacheSpan_def cacheSpan_find_def cacheSpan_retry_more_fuel
      split: sum.splits prod.splits option.splits)

text \<open>The examples, run.\<close>

lemmas run_defs = cacheSpan_def cacheSpan_find_def spanBytes_of_def havespan_def grow_def
  call_refillAllocCache_def Let_def

lemma ex_listed_run:
  "\<exists>st'. cacheSpan (Suc 0) ex_env ex_listed = Some (Inr (Some 3, st')) \<and>
      allocCount (spans st' 3) = 1 \<and> nelems (spans st' 3) = 170 \<and> freeindex (spans st' 3) = 1 \<and>
      heap_live st' = 8144 \<and> nmalloc (central st') = 169"
  by (simp add: run_defs ex_defs prim_defs)

lemma ex_unswept_run:
  "\<exists>st'. cacheSpan (Suc 0) ex_env ex_unswept = Some (Inr (Some 3, st')) \<and>
      allocCount (spans st' 3) = 1 \<and> nelems (spans st' 3) = 170 \<and> freeindex (spans st' 3) = 1"
  by (simp add: run_defs ex_defs prim_defs)

lemma ex_grow_run:
  "\<exists>st'. cacheSpan (Suc 0) ex_env ex_state = Some (Inr (Some 7, st')) \<and>
      allocCount (spans st' 7) = 0 \<and> nelems (spans st' 7) = 170 \<and> freeindex (spans st' 7) = 0"
  by (simp add: run_defs ex_defs prim_defs)

lemma ex_listed_full_find:
  "\<exists>st1. cacheSpan_find (Suc 0) ex_env ex_listed_full = Some (Inr (Some 3, st1)) \<and>
      ucast (allocCount (spans st1 3)) = nelems (spans st1 3)"
  by (simp add: run_defs ex_defs prim_defs)

text \<open>
  C1. A span that \<^verbatim>\<open>cacheSpan\<close> returns has passed the test before the return: in the
  state at the return its \<^verbatim>\<open>allocCount\<close> differs from \<^verbatim>\<open>nelems\<close> and its \<^verbatim>\<open>freeindex\<close>
  differs from \<^verbatim>\<open>nelems\<close>; so for a span that keeps the two at most \<^verbatim>\<open>nelems\<close>, as every
  span does, \<^verbatim>\<open>allocCount < nelems\<close> and \<^verbatim>\<open>freeindex < nelems\<close>. This holds for every
  way to the return (the theorem is about any returned span). And when the search
  comes to the label \<^verbatim>\<open>havespan\<close> with a span that has no free object, \<^verbatim>\<open>cacheSpan\<close>
  throws "span has no free objects" there and returns nothing.
\<close>

theorem cacheSpan_span_has_free_object:
  "(cacheSpan fuel env st = Some (Inr (Some s, st')) \<longrightarrow>
      ucast (allocCount (spans st' s)) \<noteq> nelems (spans st' s) \<and>
      freeindex (spans st' s) \<noteq> nelems (spans st' s) \<and>
      (ucast (allocCount (spans st' s)) \<le> nelems (spans st' s) \<longrightarrow>
         ucast (allocCount (spans st' s)) < nelems (spans st' s)) \<and>
      (freeindex (spans st' s) \<le> nelems (spans st' s) \<longrightarrow>
         freeindex (spans st' s) < nelems (spans st' s))) \<and>
   (cacheSpan_find fuel env st = Some (Inr (Some s, st1)) \<and>
      (ucast (allocCount (spans st1 s)) = nelems (spans st1 s) \<or>
       freeindex (spans st1 s) = nelems (spans st1 s)) \<longrightarrow>
      cacheSpan fuel env st = Some (Inl (Throw ''span has no free objects'', st1)))"
proof (intro conjI impI)
  assume "cacheSpan fuel env st = Some (Inr (Some s, st'))"
  then obtain st0 where "havespan env (spanBytes_of env st) s st0 = Inr (Some s, st')"
    using cacheSpan_Inr_Some by blast
  from havespan_Inr [OF this]
  show ne: "ucast (allocCount (spans st' s)) \<noteq> nelems (spans st' s)"
    and nf: "freeindex (spans st' s) \<noteq> nelems (spans st' s)"
    by simp_all
  show "ucast (allocCount (spans st' s)) < nelems (spans st' s)"
    if "ucast (allocCount (spans st' s)) \<le> nelems (spans st' s)"
    using that ne by simp
  show "freeindex (spans st' s) < nelems (spans st' s)"
    if "freeindex (spans st' s) \<le> nelems (spans st' s)"
    using that nf by simp
next
  assume a: "cacheSpan_find fuel env st = Some (Inr (Some s, st1)) \<and>
      (ucast (allocCount (spans st1 s)) = nelems (spans st1 s) \<or>
       freeindex (spans st1 s) = nelems (spans st1 s))"
  then have "havespan env (spanBytes_of env st) s st1 = Inl (Throw ''span has no free objects'', st1)"
    by (intro havespan_throw) auto
  with a show "cacheSpan fuel env st = Some (Inl (Throw ''span has no free objects'', st1))"
    by (simp add: cacheSpan_def)
qed

text \<open>
  The three ways to a span, and the throw: a span taken from the nonempty list, a
  span of the empty list that the call sweeps, a span that \<^verbatim>\<open>grow\<close> gets from the heap,
  and a span in the nonempty list with all its objects allocated.
\<close>

theorem cacheSpan_span_has_free_object_witness:
  "(\<exists>st'. cacheSpan (Suc 0) ex_env ex_listed = Some (Inr (Some 3, st')) \<and>
      ucast (allocCount (spans st' 3)) < nelems (spans st' 3) \<and>
      freeindex (spans st' 3) < nelems (spans st' 3)) \<and>
   (\<exists>st'. cacheSpan (Suc 0) ex_env ex_unswept = Some (Inr (Some 3, st')) \<and>
      ucast (allocCount (spans st' 3)) < nelems (spans st' 3) \<and>
      freeindex (spans st' 3) < nelems (spans st' 3)) \<and>
   (\<exists>st'. cacheSpan (Suc 0) ex_env ex_state = Some (Inr (Some 7, st')) \<and>
      ucast (allocCount (spans st' 7)) < nelems (spans st' 7) \<and>
      freeindex (spans st' 7) < nelems (spans st' 7)) \<and>
   (\<exists>st1. cacheSpan_find (Suc 0) ex_env ex_listed_full = Some (Inr (Some 3, st1)) \<and>
      ucast (allocCount (spans st1 3)) = nelems (spans st1 3) \<and>
      cacheSpan (Suc 0) ex_env ex_listed_full = Some (Inl (Throw ''span has no free objects'', st1)))"
proof (intro conjI)
  from ex_listed_run obtain st' where r:
    "cacheSpan (Suc 0) ex_env ex_listed = Some (Inr (Some 3, st'))"
    "allocCount (spans st' 3) = 1" "nelems (spans st' 3) = 170" "freeindex (spans st' 3) = 1"
    by blast
  from cacheSpan_span_has_free_object [of "Suc 0" ex_env ex_listed 3 st'] r
  have "ucast (allocCount (spans st' 3)) < nelems (spans st' 3) \<and>
        freeindex (spans st' 3) < nelems (spans st' 3)"
    by simp
  with r(1) show "\<exists>st'. cacheSpan (Suc 0) ex_env ex_listed = Some (Inr (Some 3, st')) \<and>
      ucast (allocCount (spans st' 3)) < nelems (spans st' 3) \<and>
      freeindex (spans st' 3) < nelems (spans st' 3)"
    by blast
next
  from ex_unswept_run obtain st' where r:
    "cacheSpan (Suc 0) ex_env ex_unswept = Some (Inr (Some 3, st'))"
    "allocCount (spans st' 3) = 1" "nelems (spans st' 3) = 170" "freeindex (spans st' 3) = 1"
    by blast
  from cacheSpan_span_has_free_object [of "Suc 0" ex_env ex_unswept 3 st'] r
  have "ucast (allocCount (spans st' 3)) < nelems (spans st' 3) \<and>
        freeindex (spans st' 3) < nelems (spans st' 3)"
    by simp
  with r(1) show "\<exists>st'. cacheSpan (Suc 0) ex_env ex_unswept = Some (Inr (Some 3, st')) \<and>
      ucast (allocCount (spans st' 3)) < nelems (spans st' 3) \<and>
      freeindex (spans st' 3) < nelems (spans st' 3)"
    by blast
next
  from ex_grow_run obtain st' where r:
    "cacheSpan (Suc 0) ex_env ex_state = Some (Inr (Some 7, st'))"
    "allocCount (spans st' 7) = 0" "nelems (spans st' 7) = 170" "freeindex (spans st' 7) = 0"
    by blast
  from cacheSpan_span_has_free_object [of "Suc 0" ex_env ex_state 7 st'] r
  have "ucast (allocCount (spans st' 7)) < nelems (spans st' 7) \<and>
        freeindex (spans st' 7) < nelems (spans st' 7)"
    by simp
  with r(1) show "\<exists>st'. cacheSpan (Suc 0) ex_env ex_state = Some (Inr (Some 7, st')) \<and>
      ucast (allocCount (spans st' 7)) < nelems (spans st' 7) \<and>
      freeindex (spans st' 7) < nelems (spans st' 7)"
    by blast
next
  from ex_listed_full_find obtain st1 where r:
    "cacheSpan_find (Suc 0) ex_env ex_listed_full = Some (Inr (Some 3, st1))"
    "ucast (allocCount (spans st1 3)) = nelems (spans st1 3)"
    by blast
  from cacheSpan_span_has_free_object [of "Suc 0" ex_env ex_listed_full 3 _ st1] r
  have "cacheSpan (Suc 0) ex_env ex_listed_full = Some (Inl (Throw ''span has no free objects'', st1))"
    by simp
  with r show "\<exists>st1. cacheSpan_find (Suc 0) ex_env ex_listed_full = Some (Inr (Some 3, st1)) \<and>
      ucast (allocCount (spans st1 3)) = nelems (spans st1 3) \<and>
      cacheSpan (Suc 0) ex_env ex_listed_full = Some (Inl (Throw ''span has no free objects'', st1))"
    by blast
qed

text \<open>
  C8, as the code has it. \<^verbatim>\<open>cacheSpan\<close> writes the two counters once, between the
  label \<^verbatim>\<open>havespan\<close> and the return. For a returned span, with \<open>st1\<close> the state at
  the label: \<^verbatim>\<open>heap_live\<close> goes up by the byte size of the span less the bytes of
  the objects already allocated in it, \<^verbatim>\<open>spanBytes - allocCount * elemsize\<close>, and
  \<^verbatim>\<open>nmalloc\<close> goes up by the number of free objects of the span,
  \<^verbatim>\<open>nelems - allocCount\<close>; the three fields of the span are at the return what they
  were at the label.
\<close>

theorem cacheSpan_counts_span:
  assumes "cacheSpan fuel env st = Some (Inr (Some s, st'))"
  shows "\<exists>st1.
     cacheSpan_find fuel env st = Some (Inr (Some s, st1)) \<and>
     heap_live st' =
       heap_live st1 +
         (spanBytes_of env st - ucast (allocCount (spans st1 s)) * elemsize (spans st1 s)) \<and>
     nmalloc (central st') =
       nmalloc (central st1) + (nelems (spans st1 s) - ucast (allocCount (spans st1 s))) \<and>
     allocCount (spans st' s) = allocCount (spans st1 s) \<and>
     nelems (spans st' s) = nelems (spans st1 s) \<and>
     elemsize (spans st' s) = elemsize (spans st1 s)"
proof -
  from assms obtain st1 where st1:
    "cacheSpan_find fuel env st = Some (Inr (Some s, st1))"
    "havespan env (spanBytes_of env st) s st1 = Inr (Some s, st')"
    using cacheSpan_Inr_Some by blast
  from havespan_Inr [OF st1(2)] st1(1) show ?thesis
    by (intro exI [of _ st1]) simp
qed

theorem cacheSpan_counts_span_witness:
  "\<exists>st' st1.
     cacheSpan (Suc 0) ex_env ex_listed = Some (Inr (Some 3, st')) \<and>
     cacheSpan_find (Suc 0) ex_env ex_listed = Some (Inr (Some 3, st1)) \<and>
     heap_live st' =
       heap_live st1 +
         (spanBytes_of ex_env ex_listed - ucast (allocCount (spans st1 3)) * elemsize (spans st1 3)) \<and>
     nmalloc (central st') =
       nmalloc (central st1) + (nelems (spans st1 3) - ucast (allocCount (spans st1 3))) \<and>
     heap_live st' = 8144 \<and> nmalloc (central st') = 169"
proof -
  from ex_listed_run obtain st' where r:
    "cacheSpan (Suc 0) ex_env ex_listed = Some (Inr (Some 3, st'))"
    "heap_live st' = 8144" "nmalloc (central st') = 169"
    by blast
  from cacheSpan_counts_span [OF r(1)] r show ?thesis
    by blast
qed

text \<open>
  The claim of C8 as it is written fails. The span of \<open>ex_listed\<close> is one page of
  8192 bytes with one object of 48 bytes allocated; \<^verbatim>\<open>cacheSpan\<close> returns it and
  \<^verbatim>\<open>heap_live\<close>, 0 before, is 8144 and not 8192.
\<close>

theorem cacheSpan_full_size_counterexample:
  "map_option returned (cacheSpan (Suc 0) ex_env ex_listed) = Some (Some (Some 3)) \<and>
   map_option (heap_live \<circ> final_state) (cacheSpan (Suc 0) ex_env ex_listed) = Some 8144 \<and>
   heap_live ex_listed + spanBytes_of ex_env ex_listed = 8192"
  by (simp add: run_defs ex_defs prim_defs returned_def final_state_def)

subsection \<open>cacheSpan, then uncacheSpan\<close>

text \<open>
  C5, as the code has it. The span \<open>s\<close> is in the nonempty list, swept (its
  generation is the global one), after spans that are being swept by others; it has
  an allocated and a free object, its \<^verbatim>\<open>freeindex\<close> is not \<^verbatim>\<open>nelems\<close>, and no sweep
  credit is owed. Then \<^verbatim>\<open>cacheSpan\<close> returns \<open>s\<close>, \<^verbatim>\<open>uncacheSpan\<close> of \<open>s\<close> right after
  returns too, and after the two: \<^verbatim>\<open>allocCount\<close> and \<^verbatim>\<open>nelems\<close> of the span are what
  they were, the span is in the nonempty list again, now at its front, the empty
  list is what it was, \<^verbatim>\<open>nmalloc\<close> is what it was, and \<^verbatim>\<open>heap_live\<close> is higher by
  \<^verbatim>\<open>spanBytes - nelems * elemsize\<close>, the bytes at the end of the span that hold no
  object.
\<close>

theorem cacheSpan_uncacheSpan_round_trip:
  assumes credit: "deductSweepCredit env (spanBytes_of env st) 0 st = Inr ((), st)"
    and lst: "nonempty (central st) = pre @ s # post"
    and busy: "\<forall>x\<in>set pre. sweepgen (spans st x) = mheap_sweepgen st - 1"
    and swept: "sweepgen (spans st s) = mheap_sweepgen st"
    and dist: "s \<notin> set pre" "s \<notin> set post" "s \<notin> set (empty (central st))"
    and alloc: "allocCount (spans st s) \<noteq> 0"
    and free: "0 <s nelems (spans st s) - ucast (allocCount (spans st s))"
    and idx: "freeindex (spans st s) \<noteq> nelems (spans st s)"
  shows "\<exists>st1 st2.
     cacheSpan (Suc fuel) env st = Some (Inr (Some s, st1)) \<and>
     uncacheSpan env s st1 = Inr ((), st2) \<and>
     allocCount (spans st2 s) = allocCount (spans st s) \<and>
     nelems (spans st2 s) = nelems (spans st s) \<and>
     nonempty (central st2) = s # pre @ post \<and>
     empty (central st2) = empty (central st) \<and>
     nmalloc (central st2) = nmalloc (central st) \<and>
     heap_live st2 =
       heap_live st + (spanBytes_of env st - nelems (spans st s) * elemsize (spans st s))"
proof -
  define sg where "sg = mheap_sweepgen st"
  define st0 where "st0 = lock_c (st\<lparr>events := events st @ [EvDeductSweepCredit (spanBytes_of env st)]\<rparr>)"
  have st0: "spans st0 = spans st" "nonempty (central st0) = pre @ s # post"
    "empty (central st0) = empty (central st)" "mheap_sweepgen st0 = sg"
    "heap_live st0 = heap_live st" "nmalloc (central st0) = nmalloc (central st)"
    by (simp_all add: st0_def sg_def state_fields lst)
  have "ext (EvDeductSweepCredit (spanBytes_of env st)) (deductSweepCredit env (spanBytes_of env st) 0) st =
      Inr ((), st\<lparr>events := events st @ [EvDeductSweepCredit (spanBytes_of env st)]\<rparr>)"
    using credit by (simp add: ext_def)
  then have find: "cacheSpan_find (Suc fuel) env st = cacheSpan_retry (Suc fuel) env sg st0"
    by (simp add: cacheSpan_find_def st0_def sg_def state_fields del: cacheSpan_retry.simps)
  have ne: "sweepgen (spans st0 s) \<noteq> sg - 2" "sweepgen (spans st0 s) \<noteq> sg - 1"
    using swept by (simp_all add: st0 sg_def)
  have "scan_nonempty env sg (pre @ s # post) st0 = scan_nonempty env sg (s # post) st0"
    using busy by (intro scan_nonempty_skip) (simp add: st0 sg_def)
  moreover from scan_nonempty_take [OF ne, of env post] dist(3)
  obtain st1 where st1:
    "scan_nonempty env sg (s # post) st0 = Inr (Some s, st1)"
    "nonempty (central st1) = removeAll s (nonempty (central st0))"
    "empty (central st1) = empty (central st0) @ [s]"
    "spans st1 = spans st0" "heap_live st1 = heap_live st0"
    "nmalloc (central st1) = nmalloc (central st0)"
    "mheap_sweepgen st1 = mheap_sweepgen st0"
    by (auto simp: st0)
  ultimately have "cacheSpan_retry (Suc fuel) env sg st0 = Some (Inr (Some s, st1))"
    by (simp add: st0)
  with find have found: "cacheSpan_find (Suc fuel) env st = Some (Inr (Some s, st1))"
    by simp
  have n0: "ucast (allocCount (spans st s)) \<noteq> nelems (spans st s)"
    using free by auto
  from havespan_returns [of st1 s env "spanBytes_of env st"] n0 idx
  obtain st2 where st2: "havespan env (spanBytes_of env st) s st1 = Inr (Some s, st2)"
    by (auto simp: st1 st0)
  note f2 = havespan_Inr [OF st2]
  have run: "cacheSpan (Suc fuel) env st = Some (Inr (Some s, st2))"
    using found st2 by (simp add: cacheSpan_def)
  have a2: "allocCount (spans st2 s) \<noteq> 0"
    using f2 alloc by (simp add: st1 st0)
  have l2: "0 <s nelems (spans st2 s) - ucast (allocCount (spans st2 s)) \<longrightarrow>
      s \<in> set (empty (central st2)) \<and> s \<notin> set (nonempty (central st2))"
    using f2 by (simp add: st1 st0)
  have fresh: "sweepgen (spans st2 s) \<noteq> mheap_sweepgen st2 + 1"
    using f2 swept by (simp add: st1 st0 sg_def)
  have pos: "0 <s nelems (spans st2 s) - ucast (allocCount (spans st2 s))"
    using f2 free by (simp add: st1 st0)
  from uncacheSpan_steps [OF a2 l2, of env] fresh pos
  obtain st3 where st3:
    "uncacheSpan env s st2 = Inr ((), st3)"
    "nonempty (central st3) = s # nonempty (central st2)"
    "empty (central st3) = removeAll s (empty (central st2))"
    "nmalloc (central st3) =
       nmalloc (central st2) - (nelems (spans st2 s) - ucast (allocCount (spans st2 s)))"
    "heap_live st3 =
       heap_live st2 - (nelems (spans st2 s) - ucast (allocCount (spans st2 s))) * elemsize (spans st2 s)"
    "spans st3 = (spans st2)(s := (spans st2 s)\<lparr>sweepgen := mheap_sweepgen st2\<rparr>)"
    by auto
  have "allocCount (spans st3 s) = allocCount (spans st s)"
    and "nelems (spans st3 s) = nelems (spans st s)"
    using f2 by (simp_all add: st3 st1 st0)
  moreover have "nonempty (central st3) = s # pre @ post"
    using f2 dist by (simp add: st3 st1 st0)
  moreover have "empty (central st3) = empty (central st)"
    using f2 dist by (simp add: st3 st1 st0)
  moreover have "nmalloc (central st3) = nmalloc (central st)"
    using f2 by (simp add: st3 st1 st0)
  moreover have "heap_live st3 =
      heap_live st + (spanBytes_of env st - nelems (spans st s) * elemsize (spans st s))"
    using f2 by (simp add: st3 st1 st0 algebra_simps)
  ultimately show ?thesis
    using run st3(1) by blast
qed

theorem cacheSpan_uncacheSpan_round_trip_witness:
  "deductSweepCredit ex_env (spanBytes_of ex_env ex_listed_behind) 0 ex_listed_behind =
     Inr ((), ex_listed_behind) \<and>
   nonempty (central ex_listed_behind) = [5] @ 3 # [] \<and>
   sweepgen (spans ex_listed_behind 5) = mheap_sweepgen ex_listed_behind - 1 \<and>
   sweepgen (spans ex_listed_behind 3) = mheap_sweepgen ex_listed_behind \<and>
   3 \<notin> set (empty (central ex_listed_behind)) \<and>
   allocCount (spans ex_listed_behind 3) \<noteq> 0 \<and>
   0 <s nelems (spans ex_listed_behind 3) - ucast (allocCount (spans ex_listed_behind 3)) \<and>
   freeindex (spans ex_listed_behind 3) \<noteq> nelems (spans ex_listed_behind 3) \<and>
   (\<exists>st1 st2.
      cacheSpan (Suc 0) ex_env ex_listed_behind = Some (Inr (Some 3, st1)) \<and>
      uncacheSpan ex_env 3 st1 = Inr ((), st2) \<and>
      allocCount (spans st2 3) = 1 \<and> nonempty (central st2) = [3, 5] \<and>
      empty (central st2) = [] \<and> nmalloc (central st2) = 0 \<and> heap_live st2 = 32)"
proof -
  have pre:
    "deductSweepCredit ex_env (spanBytes_of ex_env ex_listed_behind) 0 ex_listed_behind =
       Inr ((), ex_listed_behind)"
    "nonempty (central ex_listed_behind) = [5] @ 3 # []"
    "\<forall>x\<in>set [5]. sweepgen (spans ex_listed_behind x) = mheap_sweepgen ex_listed_behind - 1"
    "sweepgen (spans ex_listed_behind 3) = mheap_sweepgen ex_listed_behind"
    "(3::sid) \<notin> set [5]" "(3::sid) \<notin> set []"
    "3 \<notin> set (empty (central ex_listed_behind))"
    "allocCount (spans ex_listed_behind 3) \<noteq> 0"
    "0 <s nelems (spans ex_listed_behind 3) - ucast (allocCount (spans ex_listed_behind 3))"
    "freeindex (spans ex_listed_behind 3) \<noteq> nelems (spans ex_listed_behind 3)"
    by (simp_all add: ex_defs ret_def word_sless_alt)
  from cacheSpan_uncacheSpan_round_trip [OF pre, of 0]
  obtain st1 st2 where r:
    "cacheSpan (Suc 0) ex_env ex_listed_behind = Some (Inr (Some 3, st1))"
    "uncacheSpan ex_env 3 st1 = Inr ((), st2)"
    "allocCount (spans st2 3) = allocCount (spans ex_listed_behind 3)"
    "nonempty (central st2) = 3 # [5] @ []"
    "empty (central st2) = empty (central ex_listed_behind)"
    "nmalloc (central st2) = nmalloc (central ex_listed_behind)"
    "heap_live st2 =
       heap_live ex_listed_behind +
         (spanBytes_of ex_env ex_listed_behind -
            nelems (spans ex_listed_behind 3) * elemsize (spans ex_listed_behind 3))"
    by blast
  have "allocCount (spans st2 3) = 1" "nonempty (central st2) = [3, 5]"
    "empty (central st2) = []" "nmalloc (central st2) = 0" "heap_live st2 = 32"
    using r(3-7) by (simp_all add: ex_defs spanBytes_of_def)
  moreover have "sweepgen (spans ex_listed_behind 5) = mheap_sweepgen ex_listed_behind - 1"
    using pre(3) by simp
  ultimately show ?thesis
    using r(1,2) pre(1,2,4,7-10) by blast
qed

text \<open>
  The claim of C5 as it is written fails. The span of \<open>ex_listed\<close> is acquired and
  released at once, no object allocated in between, both calls return, and
  \<^verbatim>\<open>heap_live\<close>, 0 before, is 32 after: the 32 bytes of the page that hold no object
  were added by \<^verbatim>\<open>cacheSpan\<close> and are not taken off by \<^verbatim>\<open>uncacheSpan\<close>.
\<close>

theorem cacheSpan_uncacheSpan_heap_live_counterexample:
  "map_option returned (cacheSpan (Suc 0) ex_env ex_listed) = Some (Some (Some 3)) \<and>
   returned (uncacheSpan ex_env 3 (final_state (the (cacheSpan (Suc 0) ex_env ex_listed)))) = Some () \<and>
   heap_live (final_state (uncacheSpan ex_env 3 (final_state (the (cacheSpan (Suc 0) ex_env ex_listed))))) = 32 \<and>
   heap_live ex_listed = 0"
  by (simp add: run_defs ex_defs prim_defs returned_def final_state_def uncacheSpan_def word_sless_alt)

end
